theory Spec2Isabelle
  imports Complex_Main "HOL-Library.Multiset" "HOL-Library.Sublist"
begin

section \<open>Strings\<close>

text \<open>
  JavaScript strings are modelled as \<^typ>\<open>string\<close>. The catalog and the browser's
  hardware strings are taken to be ASCII: \<open>toLowerCase\<close> maps \<open>A\<close>..\<open>Z\<close> to
  \<open>a\<close>..\<open>z\<close> and leaves every other character alone, and \<open>trim\<close> strips the
  ASCII white space (space, tab, line feed, vertical tab, form feed, carriage return).
\<close>

definition lowerChar :: "char \<Rightarrow> char" where
  "lowerChar c =
     (case map_of (zip ''ABCDEFGHIJKLMNOPQRSTUVWXYZ'' ''abcdefghijklmnopqrstuvwxyz'') c of
        None \<Rightarrow> c
      | Some l \<Rightarrow> l)"

definition toLowerCase :: "string \<Rightarrow> string" where
  "toLowerCase s = map lowerChar s"

definition isWhiteSpace :: "char \<Rightarrow> bool" where
  "isWhiteSpace c = (c \<in> set [CHR '' '', CHR 0x09, CHR 0x0A, CHR 0x0B, CHR 0x0C, CHR 0x0D])"

definition trim :: "string \<Rightarrow> string" where
  "trim s = rev (dropWhile isWhiteSpace (rev (dropWhile isWhiteSpace s)))"

text \<open>\<open>h.startsWith(n)\<close> and \<open>h.includes(n)\<close>: \<open>n\<close> occurs in \<open>h\<close> as a contiguous run.\<close>

fun startsWith :: "string \<Rightarrow> string \<Rightarrow> bool" where
  "startsWith h [] = True"
| "startsWith [] (y # ys) = False"
| "startsWith (x # xs) (y # ys) = (x = y \<and> startsWith xs ys)"

fun includes_str :: "string \<Rightarrow> string \<Rightarrow> bool" where
  "includes_str [] n = (n = [])"
| "includes_str (x # xs) n = (startsWith (x # xs) n \<or> includes_str xs n)"

text \<open>
  \<open>s.split(" ")\<close>: the fields between single space characters. Two spaces in a row
  give an empty field, and a string without a space is its own only field.
\<close>

fun splitSpace :: "string \<Rightarrow> string list" where
  "splitSpace [] = [[]]"
| "splitSpace (c # cs) =
     (if c = CHR '' '' then [] # splitSpace cs
      else (case splitSpace cs of [] \<Rightarrow> [[c]] | w # ws \<Rightarrow> (c # w) # ws))"

text \<open>\<open>s.split(" ")[1] || ""\<close>: the field at index 1, the empty string when there is none.\<close>

definition fieldOne :: "string \<Rightarrow> string" where
  "fieldOne s = (case splitSpace s of _ # t # _ \<Rightarrow> t | _ \<Rightarrow> [])"

text \<open>\<open>xs.join(" ")\<close>, an absent (\<open>null\<close> or \<open>undefined\<close>) element printing as the empty string.\<close>

fun joinSpace :: "string list \<Rightarrow> string" where
  "joinSpace [] = []"
| "joinSpace [x] = x"
| "joinSpace (x # y # ys) = x @ '' '' @ joinSpace (y # ys)"

definition orEmpty :: "string option \<Rightarrow> string" where
  "orEmpty s = (case s of None \<Rightarrow> [] | Some t \<Rightarrow> t)"

section \<open>The catalog and the hardware profile\<close>

text \<open>
  An entry of \<open>models.json\<close> and its \<open>hardware_profile\<close> object. A field that the JSON
  may leave out is an option; numbers are JSON numbers. The \<open>links\<close> of an entry are only
  printed on its card and are left out.
\<close>

record hardware_hint =
  arch :: "string option"
  min_ram_gb :: "real option"
  min_cores :: "real option"

record model_record =
  model_id :: string
  model_name :: string
  display_name :: "string option"
  provider :: string
  purpose :: string
  supports_tools :: bool
  recommended_for :: "string list option"
  hardware_profile :: "hardware_hint option"
  notes_text :: "string option"

text \<open>
  The object \<open>detectHardware\<close> returns, without \<open>userAgent\<close> and \<open>platform\<close>, which
  nothing reads afterwards; \<open>null\<close> fields are \<open>None\<close>.
\<close>

record hardware =
  os :: string
  cores :: "real option"
  approxMemoryGb :: "real option"
  isAppleSilicon :: bool
  gpu :: "string option"

section \<open>Scoring\<close>

text \<open>\<open>model.hardware_profile || {}\<close>: an absent hint reads as an object without fields.\<close>

definition noHint :: hardware_hint where
  "noHint = \<lparr>arch = None, min_ram_gb = None, min_cores = None\<rparr>"

text \<open>
  The test of \<open>recommended_for.some(...)\<close> against the lower-cased GPU string \<open>g\<close>.
\<close>

definition gpuMatch :: "string \<Rightarrow> string list \<Rightarrow> bool" where
  "gpuMatch g rf = list_ex (\<lambda>s. includes_str g (fieldOne (toLowerCase s))) rf"

text \<open>
  \<open>scoreModelForHardware(model, hw)\<close>. The running \<open>score\<close> of the source is rebound
  by each statement in turn. \<open>hw.gpu\<close> is tested for truthiness: an empty string counts
  as no GPU.
\<close>

definition scoreModelForHardware :: "model_record \<Rightarrow> hardware option \<Rightarrow> int" where
  "scoreModelForHardware m h =
     (case h of
        None \<Rightarrow> 0
      | Some hw \<Rightarrow>
          (let prof = (case hardware_profile m of None \<Rightarrow> noHint | Some p \<Rightarrow> p);
               score = 0;
               score = (if isAppleSilicon hw \<and> arch prof = Some ''arm64'' then score + 3 else score);
               score = (if \<not> isAppleSilicon hw \<and> arch prof = Some ''x86_64'' then score + 2 else score);
               score = (case approxMemoryGb hw of
                          None \<Rightarrow> score
                        | Some mem \<Rightarrow>
                            (case min_ram_gb prof of
                               None \<Rightarrow> score
                             | Some need \<Rightarrow> if mem \<ge> need then score + 3 else score - 2));
               score = (case cores hw of
                          None \<Rightarrow> score
                        | Some n \<Rightarrow>
                            (case min_cores prof of
                               None \<Rightarrow> score
                             | Some need \<Rightarrow> if n \<ge> need then score + 1 else score));
               score = (case gpu hw of
                          None \<Rightarrow> score
                        | Some gs \<Rightarrow>
                            if gs = [] then score
                            else (case recommended_for m of
                                    None \<Rightarrow> score
                                  | Some rf \<Rightarrow>
                                      (let g = toLowerCase gs; match = gpuMatch g rf
                                       in if match then score + 2 else score)))
           in score))"

subsection \<open>The four factors\<close>

text \<open>
  What each statement of \<open>scoreModelForHardware\<close> adds to the running score: the two
  architecture tests, the memory test, the cores test and the GPU test. \<open>hintOf\<close> is
  the source's \<open>prof\<close>.
\<close>

definition hintOf :: "model_record \<Rightarrow> hardware_hint" where
  "hintOf m = (case hardware_profile m of None \<Rightarrow> noHint | Some p \<Rightarrow> p)"

definition archPoints :: "hardware \<Rightarrow> hardware_hint \<Rightarrow> int" where
  "archPoints hw prof =
     (if isAppleSilicon hw \<and> arch prof = Some ''arm64'' then 3 else 0) +
     (if \<not> isAppleSilicon hw \<and> arch prof = Some ''x86_64'' then 2 else 0)"

definition ramPoints :: "hardware \<Rightarrow> hardware_hint \<Rightarrow> int" where
  "ramPoints hw prof =
     (case approxMemoryGb hw of
        None \<Rightarrow> 0
      | Some mem \<Rightarrow>
          (case min_ram_gb prof of None \<Rightarrow> 0 | Some need \<Rightarrow> if mem \<ge> need then 3 else - 2))"

definition coresPoints :: "hardware \<Rightarrow> hardware_hint \<Rightarrow> int" where
  "coresPoints hw prof =
     (case cores hw of
        None \<Rightarrow> 0
      | Some n \<Rightarrow>
          (case min_cores prof of None \<Rightarrow> 0 | Some need \<Rightarrow> if n \<ge> need then 1 else 0))"

definition gpuPoints :: "hardware \<Rightarrow> model_record \<Rightarrow> int" where
  "gpuPoints hw m =
     (case gpu hw of
        None \<Rightarrow> 0
      | Some gs \<Rightarrow>
          if gs = [] then 0
          else (case recommended_for m of
                  None \<Rightarrow> 0
                | Some rf \<Rightarrow> if gpuMatch (toLowerCase gs) rf then 2 else 0))"

subsection \<open>The GPU test as the specification words it\<close>

text \<open>
  The specification takes the second white-space-delimited token of an entry (the empty
  string for an entry of one word), lower-cases it and looks for it in the lower-cased
  GPU descriptor. \<open>spec_tokens\<close> cuts a string at runs of white space; \<open>tok\<close> is the
  token being read.
\<close>

fun spec_tokens :: "string \<Rightarrow> string \<Rightarrow> string list" where
  "spec_tokens tok [] = (if tok = [] then [] else [tok])"
| "spec_tokens tok (c # cs) =
     (if isWhiteSpace c then (if tok = [] then spec_tokens [] cs else tok # spec_tokens [] cs)
      else spec_tokens (tok @ [c]) cs)"

definition spec_secondToken :: "string \<Rightarrow> string" where
  "spec_secondToken s = (case spec_tokens [] s of _ # t # _ \<Rightarrow> t | _ \<Rightarrow> [])"

definition spec_gpuMatch :: "string \<Rightarrow> string list \<Rightarrow> bool" where
  "spec_gpuMatch gs rf =
     list_ex (\<lambda>s. includes_str (toLowerCase gs) (toLowerCase (spec_secondToken s))) rf"

subsection \<open>Scoring on untyped values\<close>

text \<open>
  The same function read on untyped JavaScript values, to follow where it could throw. A
  value is what JSON and \<open>detectHardware\<close> can produce. An evaluation returns a value,
  throws a \<open>TypeError\<close>, or leaves this model (a coercion the declared types never
  reach).
\<close>

datatype jsval =
    JUndefined | JNull | JBool bool | JNum real | JStr string
  | JArr "jsval list" | JObj "(string \<times> jsval) list"

datatype 'a outcome = Returns 'a | Throws | Unmodelled

definition andThen :: "'a outcome \<Rightarrow> ('a \<Rightarrow> 'b outcome) \<Rightarrow> 'b outcome" where
  "andThen r f = (case r of Returns v \<Rightarrow> f v | Throws \<Rightarrow> Throws | Unmodelled \<Rightarrow> Unmodelled)"

fun truthy :: "jsval \<Rightarrow> bool" where
  "truthy JUndefined = False"
| "truthy JNull = False"
| "truthy (JBool b) = b"
| "truthy (JNum x) = (x \<noteq> 0)"
| "truthy (JStr s) = (s \<noteq> [])"
| "truthy (JArr xs) = True"
| "truthy (JObj kvs) = True"

text \<open>
  \<open>v.k\<close> for the field names the source reads, none of which is a built-in property:
  reading from \<open>undefined\<close> or \<open>null\<close> throws, a missing key reads as \<open>undefined\<close>.
\<close>

fun getProp :: "jsval \<Rightarrow> string \<Rightarrow> jsval outcome" where
  "getProp JUndefined k = Throws"
| "getProp JNull k = Throws"
| "getProp (JObj kvs) k = Returns (case map_of kvs k of None \<Rightarrow> JUndefined | Some v \<Rightarrow> v)"
| "getProp v k = Returns JUndefined"

text \<open>\<open>typeof v === "number"\<close>, \<open>Array.isArray(v)\<close>, the elements of an array, \<open>v == null\<close>.\<close>

fun isNumber :: "jsval \<Rightarrow> bool" where
  "isNumber (JNum x) = True"
| "isNumber v = False"

fun isArray :: "jsval \<Rightarrow> bool" where
  "isArray (JArr xs) = True"
| "isArray v = False"

fun elements :: "jsval \<Rightarrow> jsval list" where
  "elements (JArr xs) = xs"
| "elements v = []"

fun nullish :: "jsval \<Rightarrow> bool" where
  "nullish JUndefined = True"
| "nullish JNull = True"
| "nullish v = False"

text \<open>\<open>a >= b\<close> on two numbers; other operands would be coerced.\<close>

fun greaterEq :: "jsval \<Rightarrow> jsval \<Rightarrow> bool outcome" where
  "greaterEq (JNum a) (JNum b) = Returns (a \<ge> b)"
| "greaterEq a b = Unmodelled"

text \<open>\<open>v.toLowerCase()\<close>: only a string has the method, calling it on anything else throws.\<close>

fun callToLowerCase :: "jsval \<Rightarrow> string outcome" where
  "callToLowerCase (JStr s) = Returns (toLowerCase s)"
| "callToLowerCase v = Throws"

text \<open>\<open>String(v)\<close> and \<open>xs.some(f)\<close>, which stops at the first entry that passes.\<close>

fun toStringJs :: "jsval \<Rightarrow> string outcome" where
  "toStringJs (JStr s) = Returns s"
| "toStringJs JUndefined = Returns ''undefined''"
| "toStringJs JNull = Returns ''null''"
| "toStringJs (JBool b) = Returns (if b then ''true'' else ''false'')"
| "toStringJs v = Unmodelled"

fun someJs :: "(jsval \<Rightarrow> bool outcome) \<Rightarrow> jsval list \<Rightarrow> bool outcome" where
  "someJs f [] = Returns False"
| "someJs f (x # xs) = andThen (f x) (\<lambda>b. if b then Returns True else someJs f xs)"

definition jsScore :: "jsval \<Rightarrow> jsval \<Rightarrow> int outcome" where
  "jsScore model hw =
     (if \<not> truthy hw then Returns 0
      else
        andThen (getProp model ''hardware_profile'') (\<lambda>hp.
        let prof = (if truthy hp then hp else JObj []);
            score = 0
        in
        andThen (getProp hw ''isAppleSilicon'') (\<lambda>apple.
        andThen (getProp prof ''arch'') (\<lambda>a.
        let score = (if truthy apple \<and> a = JStr ''arm64'' then score + 3 else score);
            score = (if \<not> truthy apple \<and> a = JStr ''x86_64'' then score + 2 else score)
        in
        andThen (getProp hw ''approxMemoryGb'') (\<lambda>mem.
        andThen (getProp prof ''min_ram_gb'') (\<lambda>need.
        andThen (if isNumber mem \<and> \<not> nullish need
                 then andThen (greaterEq mem need)
                        (\<lambda>enough. Returns (if enough then score + 3 else score - 2))
                 else Returns score) (\<lambda>score.
        andThen (getProp hw ''cores'') (\<lambda>n.
        andThen (getProp prof ''min_cores'') (\<lambda>needCores.
        andThen (if isNumber n \<and> \<not> nullish needCores
                 then andThen (greaterEq n needCores)
                        (\<lambda>enough. Returns (if enough then score + 1 else score))
                 else Returns score) (\<lambda>score.
        andThen (getProp hw ''gpu'') (\<lambda>gs.
        andThen (getProp model ''recommended_for'') (\<lambda>rf.
        if truthy gs \<and> isArray rf then
          andThen (callToLowerCase gs) (\<lambda>g.
          andThen (someJs (\<lambda>s. andThen (toStringJs s)
                             (\<lambda>t. Returns (includes_str g (fieldOne (toLowerCase t)))))
                     (elements rf))
            (\<lambda>match. Returns (if match then score + 2 else score)))
        else Returns score))))))))))))"

text \<open>
  The values of the declared types: a catalog entry as JSON gives it (an absent field
  is a missing key) and the object \<open>detectHardware\<close> builds (an unknown field is
  \<open>null\<close>); an absent profile is \<open>null\<close>.
\<close>

definition optField :: "string \<Rightarrow> ('a \<Rightarrow> jsval) \<Rightarrow> 'a option \<Rightarrow> (string \<times> jsval) list" where
  "optField k enc v = (case v of None \<Rightarrow> [] | Some x \<Rightarrow> [(k, enc x)])"

definition nullable :: "('a \<Rightarrow> jsval) \<Rightarrow> 'a option \<Rightarrow> jsval" where
  "nullable enc v = (case v of None \<Rightarrow> JNull | Some x \<Rightarrow> enc x)"

definition encHint :: "hardware_hint \<Rightarrow> jsval" where
  "encHint p = JObj (optField ''arch'' JStr (arch p) @ optField ''min_ram_gb'' JNum (min_ram_gb p)
                     @ optField ''min_cores'' JNum (min_cores p))"

definition encModel :: "model_record \<Rightarrow> jsval" where
  "encModel m =
     JObj ([(''id'', JStr (model_id m)), (''model_name'', JStr (model_name m)),
            (''provider'', JStr (provider m)), (''purpose'', JStr (purpose m)),
            (''supports_tools'', JBool (supports_tools m))]
           @ optField ''display_name'' JStr (display_name m)
           @ optField ''recommended_for'' (\<lambda>rf. JArr (map JStr rf)) (recommended_for m)
           @ optField ''hardware_profile'' encHint (hardware_profile m)
           @ optField ''notes'' JStr (notes_text m))"

definition encHardware :: "hardware option \<Rightarrow> jsval" where
  "encHardware h =
     (case h of
        None \<Rightarrow> JNull
      | Some hw \<Rightarrow>
          JObj [(''os'', JStr (os hw)), (''cores'', nullable JNum (cores hw)),
                (''approxMemoryGb'', nullable JNum (approxMemoryGb hw)),
                (''isAppleSilicon'', JBool (isAppleSilicon hw)),
                (''gpu'', nullable JStr (gpu hw))])"

definition undefinedOr :: "('a \<Rightarrow> jsval) \<Rightarrow> 'a option \<Rightarrow> jsval" where
  "undefinedOr enc v = (case v of None \<Rightarrow> JUndefined | Some x \<Rightarrow> enc x)"

section \<open>Filtering\<close>

text \<open>
  The three controls \<open>filterAndRender\<close> reads from the document: the text of the search
  box and the values of the two selects (the empty string when nothing is selected).
\<close>

record criteria =
  search_input :: string
  purpose_select :: string
  tools_select :: string

text \<open>The text a search is matched against.\<close>

definition haystack :: "model_record \<Rightarrow> string" where
  "haystack m =
     toLowerCase (joinSpace
       ([model_name m, orEmpty (display_name m), provider m, orEmpty (notes_text m)]
        @ (case recommended_for m of None \<Rightarrow> [] | Some rf \<Rightarrow> rf)))"

text \<open>The three conditional \<open>filtered = filtered.filter(...)\<close> statements.\<close>

definition purposeFilter :: "string \<Rightarrow> model_record list \<Rightarrow> model_record list" where
  "purposeFilter p filtered = (if p \<noteq> [] then filter (\<lambda>m. purpose m = p) filtered else filtered)"

definition toolsFilter :: "string \<Rightarrow> model_record list \<Rightarrow> model_record list" where
  "toolsFilter tools filtered =
     (if tools \<noteq> [] then (let val = (tools = ''true'') in filter (\<lambda>m. supports_tools m = val) filtered)
      else filtered)"

definition searchFilter :: "string \<Rightarrow> model_record list \<Rightarrow> model_record list" where
  "searchFilter search filtered =
     (if search \<noteq> [] then filter (\<lambda>m. includes_str (haystack m) search) filtered else filtered)"

text \<open>\<open>search\<close> as \<open>filterAndRender\<close> computes it from the search box.\<close>

definition searchOf :: "criteria \<Rightarrow> string" where
  "searchOf c = trim (toLowerCase (search_input c))"

text \<open>The filtering part of \<open>filterAndRender\<close>: purpose, then tools, then search.\<close>

definition filterModels :: "criteria \<Rightarrow> model_record list \<Rightarrow> model_record list" where
  "filterModels c models =
     (let filtered = models;
          filtered = purposeFilter (purpose_select c) filtered;
          filtered = toolsFilter (tools_select c) filtered;
          filtered = searchFilter (searchOf c) filtered
      in filtered)"

text \<open>The three tests as one predicate on a record: an empty control passes every record.\<close>

definition matchesCriteria :: "criteria \<Rightarrow> model_record \<Rightarrow> bool" where
  "matchesCriteria c m =
     ((if purpose_select c = [] then True else purpose m = purpose_select c) \<and>
      (if tools_select c = [] then True else supports_tools m = (tools_select c = ''true'')) \<and>
      (if searchOf c = [] then True else includes_str (haystack m) (searchOf c)))"

section \<open>Ranking\<close>

text \<open>The objects \<open>{model, score}\<close> that \<open>filterAndRender\<close> sorts.\<close>

record scored =
  model :: model_record
  score :: int

text \<open>
  \<open>Array.prototype.sort(compare)\<close>. ECMAScript (since the 2019 edition) requires the
  sort to be stable, and with a comparator that is a consistent order the sorted array
  is then unique; insertion from the right, each element going before the first one it
  does not compare greater than, computes it.
\<close>

fun insertBy :: "('a \<Rightarrow> 'a \<Rightarrow> int) \<Rightarrow> 'a \<Rightarrow> 'a list \<Rightarrow> 'a list" where
  "insertBy compare x [] = [x]"
| "insertBy compare x (y # ys) =
     (if compare x y \<le> 0 then x # y # ys else y # insertBy compare x ys)"

definition sortBy :: "('a \<Rightarrow> 'a \<Rightarrow> int) \<Rightarrow> 'a list \<Rightarrow> 'a list" where
  "sortBy compare xs = foldr (insertBy compare) xs []"

text \<open>The comparator \<open>(a, b) => b.score - a.score\<close>.\<close>

definition byScore :: "scored \<Rightarrow> scored \<Rightarrow> int" where
  "byScore a b = score b - score a"

definition withScore :: "hardware option \<Rightarrow> model_record \<Rightarrow> scored" where
  "withScore hw m = \<lparr>model = m, score = scoreModelForHardware m hw\<rparr>"

text \<open>The scoring and sorting part of \<open>filterAndRender\<close>.\<close>

definition rankModels :: "model_record list \<Rightarrow> hardware option \<Rightarrow> scored list" where
  "rankModels filtered hw = sortBy byScore (map (withScore hw) filtered)"

text \<open>The \<open>scored\<close> array of \<open>filterAndRender\<close>, and the largest score in a result.\<close>

definition rankedResult :: "criteria \<Rightarrow> model_record list \<Rightarrow> hardware option \<Rightarrow> scored list" where
  "rankedResult c models hw = rankModels (filterModels c models) hw"

definition maxScore :: "scored list \<Rightarrow> int" where
  "maxScore rs = Max (set (map score rs))"

section \<open>Rendering and paging\<close>

definition PAGE_SIZE :: nat where
  "PAGE_SIZE = 10"

text \<open>
  What a render pass leaves in the document: the summary line (\<open>NoModelsMatch\<close> is the
  text "No models match the current filters.", \<open>Matches n k\<close> the text "n models match
  your filters. Showing up to k at a time. ..."), the cards of the list, each with or
  without the chip "Best match for your machine", and the "Show k more" button when it
  is attached to the document.
\<close>

datatype summary = NoModelsMatch | Matches nat nat

record card =
  card_model :: model_record
  recommended :: bool

record page =
  summary_text :: summary
  cards :: "card list"
  show_more :: "nat option"

text \<open>
  The rendering part of \<open>filterAndRender\<close>: the list is emptied and filled with the
  first page, and the pass attaches its own button when more remains. An empty \<open>scored\<close>
  returns before \<open>scored[0]\<close> is read. A render pass does not touch the buttons that
  earlier passes attached; \<open>show_more\<close> is the button of this pass only.
\<close>

definition renderPage :: "scored list \<Rightarrow> page" where
  "renderPage scored =
     (case scored of
        [] \<Rightarrow> \<lparr>summary_text = NoModelsMatch, cards = [], show_more = None\<rparr>
      | best # _ \<Rightarrow>
          (let topScore = score best;
               pageSlice = take PAGE_SIZE scored;
               shown = map (\<lambda>s. \<lparr>card_model = model s,
                                   recommended = (score s \<ge> topScore \<and> score s > 0)\<rparr>) pageSlice
           in \<lparr>summary_text = Matches (length scored) (min PAGE_SIZE (length scored)),
               cards = shown,
               show_more = (if length scored > PAGE_SIZE
                            then Some (min PAGE_SIZE (length scored - PAGE_SIZE)) else None)\<rparr>))"

definition filterAndRender :: "model_record list \<Rightarrow> hardware option \<Rightarrow> criteria \<Rightarrow> page" where
  "filterAndRender models hw c = renderPage (rankedResult c models hw)"

text \<open>
  The catalog \<open>init\<close> hands to every render pass: \<open>models\<close> starts as the empty array
  and is replaced only when \<open>loadModels\<close> succeeds (\<open>None\<close> is a failed load).
\<close>

definition catalogAfterLoad :: "model_record list option \<Rightarrow> model_record list" where
  "catalogAfterLoad loaded = (case loaded of None \<Rightarrow> [] | Some models \<Rightarrow> models)"

text \<open>
  The click handler of the "Show more" button, closed over \<open>scored\<close> and \<open>topScore\<close>.
  \<open>alreadyShown\<close> is counted from the cards in the document. The button is detached
  once nothing remains; a detached button stays detached.
\<close>

definition showMoreClick :: "scored list \<Rightarrow> int \<Rightarrow> page \<Rightarrow> page" where
  "showMoreClick scored topScore pg =
     (let alreadyShown = length (cards pg);
          nextSlice = take PAGE_SIZE (drop alreadyShown scored);
          added = map (\<lambda>s. \<lparr>card_model = model s,
                               recommended = (score s \<ge> topScore \<and> score s > 0 \<and> alreadyShown = 0)\<rparr>)
                    nextSlice;
          shown = cards pg @ added;
          remaining = int (length scored) - int (length shown)
      in pg\<lparr>cards := shown,
            show_more := (case show_more pg of
                            None \<Rightarrow> None
                          | Some k \<Rightarrow> if remaining \<le> 0 then None
                                      else Some (nat (min (int PAGE_SIZE) remaining)))\<rparr>)"

text \<open>
  The document across render passes. Each pass rewrites the summary and the list, but it
  appends its "Show more" button beside the list (to \<open>listEl.parentNode\<close>), where
  \<open>listEl.innerHTML = ""\<close> does not reach, and only a button's own handler ever removes
  it. So the buttons of earlier passes stay attached, each closed over the \<open>scored\<close> and
  \<open>topScore\<close> of the pass that made it; \<open>btn_label\<close> is the \<open>k\<close> of its text "Show k more".
\<close>

record button =
  btn_scored :: "scored list"
  btn_topScore :: int
  btn_label :: nat

record document =
  doc_summary :: summary
  doc_cards :: "card list"
  doc_buttons :: "button list"

text \<open>The button that a render pass of \<open>scored\<close> appends, if it appends one.\<close>

definition newButtons :: "scored list \<Rightarrow> button list" where
  "newButtons scored =
     (case scored of
        [] \<Rightarrow> []
      | best # _ \<Rightarrow>
          (case show_more (renderPage scored) of
             None \<Rightarrow> []
           | Some k \<Rightarrow> [\<lparr>btn_scored = scored, btn_topScore = score best, btn_label = k\<rparr>]))"

text \<open>
  \<open>rerender\<close>, the listener \<open>() => filterAndRender(models, hw)\<close> that \<open>init\<close> registers on
  the three controls, as a change of the document: the buttons already attached stay.
\<close>

definition rerender :: "model_record list \<Rightarrow> hardware option \<Rightarrow> criteria \<Rightarrow> document \<Rightarrow> document" where
  "rerender models hw c doc =
     (let scored = rankedResult c models hw;
          pg = renderPage scored
      in \<lparr>doc_summary = summary_text pg, doc_cards = cards pg,
          doc_buttons = doc_buttons doc @ newButtons scored\<rparr>)"

text \<open>
  A click on the button attached at position \<open>k\<close>: its handler runs on the list as the
  document now has it, with the \<open>scored\<close> and \<open>topScore\<close> of the button's own pass, and
  removes or relabels that button. Where no button is attached there is nothing to click.
\<close>

definition clickShowMore :: "nat \<Rightarrow> document \<Rightarrow> document" where
  "clickShowMore k doc =
     (if k < length (doc_buttons doc) then
        (let b = doc_buttons doc ! k;
             pg = showMoreClick (btn_scored b) (btn_topScore b)
                    \<lparr>summary_text = doc_summary doc, cards = doc_cards doc,
                     show_more = Some (btn_label b)\<rparr>
         in \<lparr>doc_summary = summary_text pg, doc_cards = cards pg,
             doc_buttons =
               (case show_more pg of
                  None \<Rightarrow> take k (doc_buttons doc) @ drop (Suc k) (doc_buttons doc)
                | Some l \<Rightarrow> (doc_buttons doc)[k := b\<lparr>btn_label := l\<rparr>])\<rparr>)
      else doc)"

text \<open>
  The document after a render pass on \<open>doc\<close> and \<open>n\<close> clicks on the button of that pass,
  which the pass attaches behind the buttons \<open>doc\<close> already has.
\<close>

definition afterReveals ::
    "model_record list \<Rightarrow> hardware option \<Rightarrow> criteria \<Rightarrow> document \<Rightarrow> nat \<Rightarrow> document" where
  "afterReveals models hw c doc n =
     ((clickShowMore (length (doc_buttons doc))) ^^ n) (rerender models hw c doc)"

definition revealedCount :: "document \<Rightarrow> nat" where
  "revealedCount doc = length (doc_cards doc)"

text \<open>
  The two shapes of card: on the first page the chip follows the score; a card added by
  the click handler after a first page has none.
\<close>

definition firstCard :: "int \<Rightarrow> scored \<Rightarrow> card" where
  "firstCard topScore s =
     \<lparr>card_model = model s, recommended = (score s \<ge> topScore \<and> score s > 0)\<rparr>"

definition laterCard :: "scored \<Rightarrow> card" where
  "laterCard s = \<lparr>card_model = model s, recommended = False\<rparr>"

section \<open>Example data\<close>

text \<open>
  The two records and the Apple-silicon machine of the specification's example, a PC
  with a discrete GPU, and the controls left empty.
\<close>

definition exA :: model_record where
  "exA = \<lparr>model_id = ''a'', model_name = ''llama3.1:8b'', display_name = Some ''Llama 3.1 8B'',
     provider = ''Ollama'', purpose = ''general'', supports_tools = True,
     recommended_for = Some [''Apple M1 Pro''],
     hardware_profile = Some \<lparr>arch = Some ''arm64'', min_ram_gb = Some 8, min_cores = None\<rparr>,
     notes_text = None\<rparr>"

definition exB :: model_record where
  "exB = \<lparr>model_id = ''b'', model_name = ''codellama:34b'', display_name = None,
     provider = ''Ollama'', purpose = ''coding'', supports_tools = False,
     recommended_for = Some [''RTX 3060 12GB''],
     hardware_profile = Some \<lparr>arch = Some ''x86_64'', min_ram_gb = Some 32, min_cores = None\<rparr>,
     notes_text = Some ''Needs a lot of memory''\<rparr>"

definition exHw :: hardware where
  "exHw = \<lparr>os = ''macOS'', cores = Some 8, approxMemoryGb = Some 16, isAppleSilicon = True,
     gpu = None\<rparr>"

definition pcHw :: hardware where
  "pcHw = \<lparr>os = ''Windows'', cores = Some 8, approxMemoryGb = None, isAppleSilicon = False,
     gpu = Some ''NVIDIA GeForce GTX 1080''\<rparr>"

definition noCriteria :: criteria where
  "noCriteria = \<lparr>search_input = [], purpose_select = [], tools_select = []\<rparr>"

text \<open>
  Eleven coding records that differ in their identifiers only, the same with one general
  record behind them, and two settings of the controls: the purpose select on "general",
  and a search text that no record contains.
\<close>

definition elevenModels :: "model_record list" where
  "elevenModels = map (\<lambda>i. exB\<lparr>model_id := i\<rparr>)
     [''b01'', ''b02'', ''b03'', ''b04'', ''b05'', ''b06'', ''b07'', ''b08'', ''b09'', ''b10'', ''b11'']"

definition twelveModels :: "model_record list" where
  "twelveModels = elevenModels @ [exA]"

definition generalOnly :: criteria where
  "generalOnly = \<lparr>search_input = [], purpose_select = ''general'', tools_select = []\<rparr>"

definition noSuchText :: criteria where
  "noSuchText = \<lparr>search_input = ''zzz'', purpose_select = [], tools_select = []\<rparr>"

text \<open>
  A document with an empty list and no button attached, as a render pass without matches
  leaves the freshly loaded page.
\<close>

definition emptyDocument :: document where
  "emptyDocument = \<lparr>doc_summary = NoModelsMatch, doc_cards = [], doc_buttons = []\<rparr>"

section \<open>Properties of the score\<close>

lemma score_factors:
  "scoreModelForHardware m (Some hw) =
     archPoints hw (hintOf m) + ramPoints hw (hintOf m) + coresPoints hw (hintOf m) + gpuPoints hw m"
proof -
  define prof where "prof = hintOf m"
  define s1 :: "int \<Rightarrow> int" where
    "s1 = (\<lambda>score. if isAppleSilicon hw \<and> arch prof = Some ''arm64'' then score + 3 else score)"
  define s2 :: "int \<Rightarrow> int" where
    "s2 = (\<lambda>score. if \<not> isAppleSilicon hw \<and> arch prof = Some ''x86_64'' then score + 2 else score)"
  define s3 :: "int \<Rightarrow> int" where
    "s3 = (\<lambda>score. case approxMemoryGb hw of None \<Rightarrow> score
            | Some mem \<Rightarrow> (case min_ram_gb prof of None \<Rightarrow> score
                | Some need \<Rightarrow> if mem \<ge> need then score + 3 else score - 2))"
  define s4 :: "int \<Rightarrow> int" where
    "s4 = (\<lambda>score. case cores hw of None \<Rightarrow> score
            | Some n \<Rightarrow> (case min_cores prof of None \<Rightarrow> score
                | Some need \<Rightarrow> if n \<ge> need then score + 1 else score))"
  define s5 :: "int \<Rightarrow> int" where
    "s5 = (\<lambda>score. case gpu hw of None \<Rightarrow> score
            | Some gs \<Rightarrow> if gs = [] then score
                else (case recommended_for m of None \<Rightarrow> score
                    | Some rf \<Rightarrow> (let g = toLowerCase gs; match = gpuMatch g rf
                                   in if match then score + 2 else score)))"
  have run: "scoreModelForHardware m (Some hw) = s5 (s4 (s3 (s2 (s1 0))))"
    unfolding scoreModelForHardware_def s1_def s2_def s3_def s4_def s5_def prof_def hintOf_def
    by (simp only: Let_def option.case)
  have a: "s2 (s1 0) = archPoints hw prof"
    by (simp add: s1_def s2_def archPoints_def)
  have r: "s3 x = x + ramPoints hw prof" for x
    by (simp add: s3_def ramPoints_def split: option.splits)
  have c: "s4 x = x + coresPoints hw prof" for x
    by (simp add: s4_def coresPoints_def split: option.splits)
  have g: "s5 x = x + gpuPoints hw m" for x
    by (simp add: s5_def gpuPoints_def split: option.splits)
  show ?thesis
    unfolding run a r c g prof_def ..
qed

lemma score_absent: "scoreModelForHardware m None = 0"
  by (simp add: scoreModelForHardware_def)

lemma archPoints_range: "0 \<le> archPoints hw prof \<and> archPoints hw prof \<le> 3"
  by (simp add: archPoints_def)

lemma ramPoints_range: "- 2 \<le> ramPoints hw prof \<and> ramPoints hw prof \<le> 3"
  by (simp add: ramPoints_def split: option.splits)

lemma coresPoints_range: "0 \<le> coresPoints hw prof \<and> coresPoints hw prof \<le> 1"
  by (simp add: coresPoints_def split: option.splits)

lemma gpuPoints_range: "0 \<le> gpuPoints hw m \<and> gpuPoints hw m \<le> 2"
  by (simp add: gpuPoints_def split: option.splits)

text \<open>
  C10. For every model record and every hardware profile (also an absent one) the score
  is an integer between -2 and 9: the one penalty is -2, and the bonuses are at most
  3 + 3 + 1 + 2, the two architecture bonuses excluding each other.
\<close>

theorem score_bounds:
  "- 2 \<le> scoreModelForHardware m h \<and> scoreModelForHardware m h \<le> 9"
proof (cases h)
  case None
  then show ?thesis by (simp add: score_absent)
next
  case (Some hw)
  from archPoints_range [of hw "hintOf m"] ramPoints_range [of hw "hintOf m"]
    coresPoints_range [of hw "hintOf m"] gpuPoints_range [of hw m]
  show ?thesis
    unfolding Some score_factors by linarith
qed

text \<open>
  C4. For a record whose hint gives \<open>min_ram_gb\<close>, and a hardware profile whose other
  fields stay fixed, raising \<open>approxMemoryGb\<close> from a value below \<open>min_ram_gb\<close> to a
  value at or above it raises the score by exactly 5.
\<close>

theorem ram_step_adds_five:
  assumes "hardware_profile m = Some p" and "min_ram_gb p = Some need"
    and "low < need" and "need \<le> high"
  shows "scoreModelForHardware m (Some (hw\<lparr>approxMemoryGb := Some high\<rparr>))
       = scoreModelForHardware m (Some (hw\<lparr>approxMemoryGb := Some low\<rparr>)) + 5"
  using assms
  by (simp add: score_factors hintOf_def archPoints_def ramPoints_def coresPoints_def
      gpuPoints_def)

theorem ram_step_adds_five_witness:
  "hardware_profile exA = Some \<lparr>arch = Some ''arm64'', min_ram_gb = Some 8, min_cores = None\<rparr> \<and>
   (4::real) < 8 \<and> (8::real) \<le> 16 \<and>
   scoreModelForHardware exA (Some (exHw\<lparr>approxMemoryGb := Some 4\<rparr>)) = 1 \<and>
   scoreModelForHardware exA (Some (exHw\<lparr>approxMemoryGb := Some 16\<rparr>)) = 6"
proof -
  have h: "hardware_profile exA = Some \<lparr>arch = Some ''arm64'', min_ram_gb = Some 8, min_cores = None\<rparr>"
    by (simp add: exA_def)
  have l: "scoreModelForHardware exA (Some (exHw\<lparr>approxMemoryGb := Some 4\<rparr>)) = 1"
    by code_simp
  from ram_step_adds_five [OF h, of 8 4 16 exHw] l h show ?thesis by simp
qed

subsection \<open>The untyped reading agrees with the typed one\<close>

lemma andThen_Returns: "andThen (Returns v) f = f v"
  by (simp add: andThen_def)

lemma getProp_encHint:
  "getProp (encHint p) ''arch'' = Returns (undefinedOr JStr (arch p))"
  "getProp (encHint p) ''min_ram_gb'' = Returns (undefinedOr JNum (min_ram_gb p))"
  "getProp (encHint p) ''min_cores'' = Returns (undefinedOr JNum (min_cores p))"
  by (simp_all add: encHint_def optField_def undefinedOr_def split: option.splits)

lemma getProp_encModel:
  "getProp (encModel m) ''hardware_profile'' = Returns (undefinedOr encHint (hardware_profile m))"
  "getProp (encModel m) ''recommended_for''
     = Returns (undefinedOr (\<lambda>rf. JArr (map JStr rf)) (recommended_for m))"
  by (simp_all add: encModel_def optField_def undefinedOr_def split: option.splits)

lemma getProp_encHardware:
  "getProp (encHardware (Some hw)) ''isAppleSilicon'' = Returns (JBool (isAppleSilicon hw))"
  "getProp (encHardware (Some hw)) ''approxMemoryGb'' = Returns (nullable JNum (approxMemoryGb hw))"
  "getProp (encHardware (Some hw)) ''cores'' = Returns (nullable JNum (cores hw))"
  "getProp (encHardware (Some hw)) ''gpu'' = Returns (nullable JStr (gpu hw))"
  by (simp_all add: encHardware_def)

lemma prof_encHint:
  "(if truthy (undefinedOr encHint (hardware_profile m)) then undefinedOr encHint (hardware_profile m)
    else JObj []) = encHint (hintOf m)"
  by (cases "hardware_profile m")
    (simp_all add: undefinedOr_def hintOf_def noHint_def encHint_def optField_def)

lemma someJs_strings:
  "someJs (\<lambda>s. andThen (toStringJs s) (\<lambda>t. Returns (P t))) (map JStr rf) = Returns (list_ex P rf)"
  by (induction rf) (simp_all add: andThen_def)

lemma arch_stage:
  "(if truthy (JBool (isAppleSilicon hw)) \<and> undefinedOr JStr (arch p) = JStr ''arm64'' then (3::int) else 0)
   + (if \<not> truthy (JBool (isAppleSilicon hw)) \<and> undefinedOr JStr (arch p) = JStr ''x86_64'' then 2 else 0)
   = archPoints hw p"
  by (cases "arch p") (simp_all add: archPoints_def undefinedOr_def)

lemma ram_stage:
  "(if isNumber (nullable JNum (approxMemoryGb hw)) \<and> \<not> nullish (undefinedOr JNum (min_ram_gb p))
    then andThen (greaterEq (nullable JNum (approxMemoryGb hw)) (undefinedOr JNum (min_ram_gb p)))
           (\<lambda>enough. Returns (if enough then sc + 3 else sc - 2))
    else Returns sc) = Returns (sc + ramPoints hw p)"
  by (cases "approxMemoryGb hw"; cases "min_ram_gb p")
    (simp_all add: ramPoints_def nullable_def undefinedOr_def andThen_def)

lemma cores_stage:
  "(if isNumber (nullable JNum (cores hw)) \<and> \<not> nullish (undefinedOr JNum (min_cores p))
    then andThen (greaterEq (nullable JNum (cores hw)) (undefinedOr JNum (min_cores p)))
           (\<lambda>enough. Returns (if enough then sc + 1 else sc))
    else Returns sc) = Returns (sc + coresPoints hw p)"
  by (cases "cores hw"; cases "min_cores p")
    (simp_all add: coresPoints_def nullable_def undefinedOr_def andThen_def)

lemma gpu_stage:
  "(if truthy (nullable JStr (gpu hw))
       \<and> isArray (undefinedOr (\<lambda>rf. JArr (map JStr rf)) (recommended_for m))
    then andThen (callToLowerCase (nullable JStr (gpu hw))) (\<lambda>g.
         andThen (someJs (\<lambda>s. andThen (toStringJs s)
                            (\<lambda>t. Returns (includes_str g (fieldOne (toLowerCase t)))))
                    (elements (undefinedOr (\<lambda>rf. JArr (map JStr rf)) (recommended_for m))))
           (\<lambda>match. Returns (if match then sc + 2 else sc)))
    else Returns sc) = Returns (sc + gpuPoints hw m)"
  by (cases "gpu hw"; cases "recommended_for m")
    (simp_all add: gpuPoints_def gpuMatch_def nullable_def undefinedOr_def andThen_Returns
      someJs_strings)

lemma jsScore_refines:
  "jsScore (encModel m) (encHardware h) = Returns (scoreModelForHardware m h)"
proof (cases h)
  case None
  then show ?thesis
    by (simp add: jsScore_def encHardware_def score_absent)
next
  case (Some hw)
  have t: "truthy (encHardware (Some hw))"
    by (simp add: encHardware_def)
  have a: "(if truthy (JBool (isAppleSilicon hw)) \<and> undefinedOr JStr (arch p) = JStr ''arm64'' then (3::int) else 0)
   + (if \<not> truthy (JBool (isAppleSilicon hw)) \<and> undefinedOr JStr (arch p) = JStr ''x86_64'' then 2 else 0)
   = archPoints hw p" for p by (rule arch_stage)
  show ?thesis
    unfolding Some jsScore_def Let_def
    by (simp only: t getProp_encModel getProp_encHardware prof_encHint getProp_encHint
        andThen_Returns ram_stage cores_stage gpu_stage score_factors if_True if_False simp_thms)
      (simp add: archPoints_def undefinedOr_def split: option.splits)
qed

lemma jsScore_can_throw:
  "jsScore (encModel exB) (JObj [(''gpu'', JNum 5)]) = Throws \<and> jsScore JNull (JObj []) = Throws"
  by code_simp

text \<open>
  C8. Scoring is total on its declared inputs. An absent hardware profile scores 0. With
  a profile the score is the sum of the four factors, and a factor is 0 as soon as a
  field it reads is absent: \<open>approxMemoryGb\<close> or \<open>min_ram_gb\<close> for the memory factor,
  \<open>cores\<close> or \<open>min_cores\<close> for the cores factor, \<open>gpu\<close> or \<open>recommended_for\<close> for the GPU
  factor, \<open>arch\<close> for the architecture factor, and the whole \<open>hardware_profile\<close> hint for
  the first three. Read on untyped values, where a member access on \<open>undefined\<close> or
  \<open>null\<close> and a call of a missing method throw, the function returns that same score,
  without throwing, on every record and profile of the declared types.
\<close>

theorem score_total_absent_fields:
  "scoreModelForHardware m None = 0 \<and>
   jsScore (encModel m) (encHardware None) = Returns 0 \<and>
   jsScore (encModel m) (encHardware (Some hw)) = Returns (scoreModelForHardware m (Some hw)) \<and>
   scoreModelForHardware m (Some hw) =
     archPoints hw (hintOf m) + ramPoints hw (hintOf m) + coresPoints hw (hintOf m) + gpuPoints hw m \<and>
   (approxMemoryGb hw = None \<longrightarrow> ramPoints hw (hintOf m) = 0) \<and>
   (min_ram_gb (hintOf m) = None \<longrightarrow> ramPoints hw (hintOf m) = 0) \<and>
   (cores hw = None \<longrightarrow> coresPoints hw (hintOf m) = 0) \<and>
   (min_cores (hintOf m) = None \<longrightarrow> coresPoints hw (hintOf m) = 0) \<and>
   (gpu hw = None \<longrightarrow> gpuPoints hw m = 0) \<and>
   (recommended_for m = None \<longrightarrow> gpuPoints hw m = 0) \<and>
   (arch (hintOf m) = None \<longrightarrow> archPoints hw (hintOf m) = 0) \<and>
   (hardware_profile m = None \<longrightarrow>
      arch (hintOf m) = None \<and> min_ram_gb (hintOf m) = None \<and> min_cores (hintOf m) = None \<and>
      scoreModelForHardware m (Some hw) = gpuPoints hw m)"
proof -
  have none: "hardware_profile m = None \<Longrightarrow> hintOf m = noHint"
    by (simp add: hintOf_def)
  have r: "approxMemoryGb hw = None \<or> min_ram_gb prof = None \<Longrightarrow> ramPoints hw prof = 0" for prof
    by (auto simp: ramPoints_def split: option.splits)
  have c: "cores hw = None \<or> min_cores prof = None \<Longrightarrow> coresPoints hw prof = 0" for prof
    by (auto simp: coresPoints_def split: option.splits)
  have g: "gpu hw = None \<or> recommended_for m = None \<Longrightarrow> gpuPoints hw m = 0"
    by (auto simp: gpuPoints_def split: option.splits)
  have a: "arch prof = None \<Longrightarrow> archPoints hw prof = 0" for prof
    by (simp add: archPoints_def)
  have n: "arch noHint = None \<and> min_ram_gb noHint = None \<and> min_cores noHint = None"
    by (simp add: noHint_def)
  have js: "jsScore (encModel m) (encHardware None) = Returns 0"
    "jsScore (encModel m) (encHardware (Some hw)) = Returns (scoreModelForHardware m (Some hw))"
    by (simp_all only: jsScore_refines score_absent)
  have typed: "scoreModelForHardware m None = 0 \<and>
   scoreModelForHardware m (Some hw) =
     archPoints hw (hintOf m) + ramPoints hw (hintOf m) + coresPoints hw (hintOf m) + gpuPoints hw m \<and>
   (approxMemoryGb hw = None \<longrightarrow> ramPoints hw (hintOf m) = 0) \<and>
   (min_ram_gb (hintOf m) = None \<longrightarrow> ramPoints hw (hintOf m) = 0) \<and>
   (cores hw = None \<longrightarrow> coresPoints hw (hintOf m) = 0) \<and>
   (min_cores (hintOf m) = None \<longrightarrow> coresPoints hw (hintOf m) = 0) \<and>
   (gpu hw = None \<longrightarrow> gpuPoints hw m = 0) \<and>
   (recommended_for m = None \<longrightarrow> gpuPoints hw m = 0) \<and>
   (arch (hintOf m) = None \<longrightarrow> archPoints hw (hintOf m) = 0) \<and>
   (hardware_profile m = None \<longrightarrow>
      arch (hintOf m) = None \<and> min_ram_gb (hintOf m) = None \<and> min_cores (hintOf m) = None \<and>
      scoreModelForHardware m (Some hw) = gpuPoints hw m)"
    using r [of "hintOf m"] c [of "hintOf m"] a [of "hintOf m"] r [of noHint] c [of noHint]
      a [of noHint] g n none
    by (simp add: score_absent score_factors)
  from js typed show ?thesis by blast
qed

theorem score_total_absent_fields_witness:
  "approxMemoryGb pcHw = None \<and> min_cores (hintOf exB) = None \<and>
   hardware_profile (exB\<lparr>hardware_profile := None\<rparr>) = None \<and>
   ramPoints pcHw (hintOf exB) = 0 \<and> coresPoints pcHw (hintOf exB) = 0 \<and>
   scoreModelForHardware exB None = 0 \<and>
   jsScore (encModel exB) (encHardware (Some pcHw)) = Returns 2 \<and>
   scoreModelForHardware exB (Some pcHw) = 2 \<and>
   scoreModelForHardware (exB\<lparr>hardware_profile := None\<rparr>) (Some pcHw) = 0"
proof -
  have h: "approxMemoryGb pcHw = None \<and> min_cores (hintOf exB) = None \<and>
      hardware_profile (exB\<lparr>hardware_profile := None\<rparr>) = None"
    by code_simp
  have a: "archPoints pcHw (hintOf exB) = 2"
    by code_simp
  have g: "gpuPoints pcHw exB = 0 \<and> gpuPoints pcHw (exB\<lparr>hardware_profile := None\<rparr>) = 0"
    by code_simp
  from score_total_absent_fields [of exB pcHw]
    score_total_absent_fields [of "exB\<lparr>hardware_profile := None\<rparr>" pcHw] h a g
  show ?thesis by simp
qed

section \<open>Properties of filtering\<close>

lemma purposeFilter_filter:
  "purposeFilter p xs = filter (\<lambda>m. if p = [] then True else purpose m = p) xs"
  by (simp add: purposeFilter_def)

lemma toolsFilter_filter:
  "toolsFilter t xs = filter (\<lambda>m. if t = [] then True else supports_tools m = (t = ''true'')) xs"
  by (simp add: toolsFilter_def)

lemma searchFilter_filter:
  "searchFilter s xs = filter (\<lambda>m. if s = [] then True else includes_str (haystack m) s) xs"
  by (simp add: searchFilter_def)

lemma filterModels_filter: "filterModels c ms = filter (matchesCriteria c) ms"
  unfolding filterModels_def Let_def purposeFilter_filter toolsFilter_filter searchFilter_filter
    matchesCriteria_def
  by (simp add: conj_commute conj_left_commute)

lemma filterModels_noCriteria: "filterModels noCriteria ms = ms"
  by (simp add: filterModels_def noCriteria_def purposeFilter_def toolsFilter_def
      searchFilter_def searchOf_def toLowerCase_def trim_def)

lemma searchOf_empty: "search_input c = [] \<Longrightarrow> searchOf c = []"
  by (simp add: searchOf_def toLowerCase_def trim_def)

text \<open>
  C6. The purpose, tools and search filters give the same sequence of records in each
  of their six orders, which is the sequence of the catalog's records that pass all
  three tests (the filters are conjunctive); a filter whose control is empty returns its
  input unchanged.
\<close>

theorem filters_commute:
  "searchFilter (searchOf c) (toolsFilter (tools_select c) (purposeFilter (purpose_select c) catalog))
     = filterModels c catalog \<and>
   searchFilter (searchOf c) (purposeFilter (purpose_select c) (toolsFilter (tools_select c) catalog))
     = filterModels c catalog \<and>
   toolsFilter (tools_select c) (searchFilter (searchOf c) (purposeFilter (purpose_select c) catalog))
     = filterModels c catalog \<and>
   toolsFilter (tools_select c) (purposeFilter (purpose_select c) (searchFilter (searchOf c) catalog))
     = filterModels c catalog \<and>
   purposeFilter (purpose_select c) (searchFilter (searchOf c) (toolsFilter (tools_select c) catalog))
     = filterModels c catalog \<and>
   purposeFilter (purpose_select c) (toolsFilter (tools_select c) (searchFilter (searchOf c) catalog))
     = filterModels c catalog \<and>
   filterModels c catalog = filter (matchesCriteria c) catalog \<and>
   (purpose_select c = [] \<longrightarrow> purposeFilter (purpose_select c) xs = xs) \<and>
   (tools_select c = [] \<longrightarrow> toolsFilter (tools_select c) xs = xs) \<and>
   (search_input c = [] \<longrightarrow> searchFilter (searchOf c) xs = xs)"
proof -
  have six: "searchFilter s (purposeFilter p (toolsFilter t ys)) = searchFilter s (toolsFilter t (purposeFilter p ys))
      \<and> toolsFilter t (searchFilter s (purposeFilter p ys)) = searchFilter s (toolsFilter t (purposeFilter p ys))
      \<and> toolsFilter t (purposeFilter p (searchFilter s ys)) = searchFilter s (toolsFilter t (purposeFilter p ys))
      \<and> purposeFilter p (searchFilter s (toolsFilter t ys)) = searchFilter s (toolsFilter t (purposeFilter p ys))
      \<and> purposeFilter p (toolsFilter t (searchFilter s ys)) = searchFilter s (toolsFilter t (purposeFilter p ys))"
    for s t p ys
    unfolding purposeFilter_filter toolsFilter_filter searchFilter_filter filter_filter
    by (intro conjI filter_cong refl) blast+
  have run: "filterModels c catalog =
      searchFilter (searchOf c) (toolsFilter (tools_select c) (purposeFilter (purpose_select c) catalog))"
    by (simp add: filterModels_def)
  have empty: "purposeFilter [] xs = xs \<and> toolsFilter [] xs = xs \<and> searchFilter [] xs = xs"
    by (simp add: purposeFilter_def toolsFilter_def searchFilter_def)
  show ?thesis
    using six [where s = "searchOf c" and t = "tools_select c" and p = "purpose_select c"
        and ys = catalog] empty
      searchOf_empty [of c]
    by (simp add: run [symmetric] filterModels_filter [symmetric])
qed

theorem filters_commute_witness:
  "purpose_select noCriteria = [] \<and> tools_select noCriteria = [] \<and> search_input noCriteria = [] \<and>
   filterModels noCriteria [exA, exB] = [exA, exB] \<and>
   filterModels (noCriteria\<lparr>purpose_select := ''coding'', search_input := '' Memory ''\<rparr>) [exA, exB] = [exB] \<and>
   purposeFilter ''coding'' (toolsFilter [] (searchFilter ''memory'' [exA, exB])) = [exB]"
proof -
  let ?c = "noCriteria\<lparr>purpose_select := ''coding'', search_input := '' Memory ''\<rparr>"
  have h: "purpose_select noCriteria = [] \<and> tools_select noCriteria = [] \<and> search_input noCriteria = []"
    by (simp add: noCriteria_def)
  note all = filters_commute [of noCriteria "[exA, exB]" "[exA, exB]"]
  from all h have same: "purposeFilter (purpose_select noCriteria) [exA, exB] = [exA, exB]"
    "toolsFilter (tools_select noCriteria) [exA, exB] = [exA, exB]"
    "searchFilter (searchOf noCriteria) [exA, exB] = [exA, exB]"
    by blast+
  from all have "filterModels noCriteria [exA, exB] =
      searchFilter (searchOf noCriteria) (toolsFilter (tools_select noCriteria)
        (purposeFilter (purpose_select noCriteria) [exA, exB]))"
    by simp
  then have one: "filterModels noCriteria [exA, exB] = [exA, exB]"
    by (simp only: same)
  have s: "searchOf ?c = ''memory'' \<and> purpose_select ?c = ''coding'' \<and> tools_select ?c = []"
    by code_simp
  have f: "filter (matchesCriteria ?c) [exA, exB] = [exB]"
    by code_simp
  note coding = filters_commute [of ?c "[exA, exB]" "[]"]
  from coding f have two: "filterModels ?c [exA, exB] = [exB]"
    by simp
  from coding have "purposeFilter (purpose_select ?c) (toolsFilter (tools_select ?c)
      (searchFilter (searchOf ?c) [exA, exB])) = filterModels ?c [exA, exB]"
    by blast
  then have three: "purposeFilter ''coding'' (toolsFilter [] (searchFilter ''memory'' [exA, exB])) = [exB]"
    using s two by simp
  from h one two three show ?thesis by blast
qed

section \<open>Properties of ranking\<close>

lemma mset_insertBy: "mset (insertBy cmp x ys) = add_mset x (mset ys)"
  by (induction ys) auto

lemma mset_sortBy: "mset (sortBy cmp xs) = mset xs"
  by (induction xs) (auto simp: sortBy_def mset_insertBy)

lemma set_insertBy: "set (insertBy cmp x ys) = insert x (set ys)"
  by (induction ys) auto

lemma length_sortBy: "length (sortBy cmp xs) = length xs"
  using mset_sortBy [of cmp xs] by (metis size_mset)

lemma sorted_insertBy:
  "sorted_wrt (\<lambda>a b. score b \<le> score a) ys \<Longrightarrow>
   sorted_wrt (\<lambda>a b. score b \<le> score a) (insertBy byScore x ys)"
  by (induction ys) (auto simp: set_insertBy byScore_def)

lemma sorted_sortBy: "sorted_wrt (\<lambda>a b. score b \<le> score a) (sortBy byScore xs)"
proof (induction xs)
  case Nil
  show ?case by (simp add: sortBy_def)
next
  case (Cons x xs)
  then show ?case
    using sorted_insertBy [of "sortBy byScore xs" x] by (simp add: sortBy_def)
qed

lemma filter_insertBy:
  "filter (\<lambda>s. score s = k) (insertBy byScore x ys) =
     (if score x = k then x # filter (\<lambda>s. score s = k) ys else filter (\<lambda>s. score s = k) ys)"
  by (induction ys) (auto simp: byScore_def)

lemma filter_sortBy:
  "filter (\<lambda>s. score s = k) (sortBy byScore xs) = filter (\<lambda>s. score s = k) xs"
proof (induction xs)
  case Nil
  show ?case by (simp add: sortBy_def)
next
  case (Cons x xs)
  have "sortBy byScore (x # xs) = insertBy byScore x (sortBy byScore xs)"
    by (simp add: sortBy_def)
  then show ?case
    using Cons by (simp add: filter_insertBy)
qed

lemma sortBy_same_score:
  "list_all (\<lambda>x. score x = k) xs \<Longrightarrow> sortBy byScore xs = xs"
proof (induction xs)
  case Nil
  show ?case by (simp add: sortBy_def)
next
  case (Cons x xs)
  then have rest: "sortBy byScore xs = xs" and all: "list_all (\<lambda>y. score y = score x) xs"
    by simp_all
  have "insertBy byScore x xs = x # xs"
    using all by (cases xs) (simp_all add: byScore_def)
  then show ?case
    using rest by (simp add: sortBy_def)
qed

lemma subseq_pair_filter:
  assumes "P a" and "P b" and "filter P ys = filter P xs" and "subseq [a, b] ys"
  shows "subseq [a, b] xs"
proof -
  have "subseq (filter P [a, b]) (filter P ys)"
    using assms(4) by (rule subseq_filter)
  then have "subseq [a, b] (filter P xs)"
    using assms(1-3) by simp
  moreover have "subseq (filter P xs) xs"
    by simp
  ultimately show ?thesis
    by (rule subseq_order.trans)
qed

lemma stable_pairs:
  assumes "score a = score b"
  shows "subseq [a, b] (sortBy byScore xs) = subseq [a, b] xs"
proof -
  let ?P = "\<lambda>s. score s = score a"
  have e: "filter ?P (sortBy byScore xs) = filter ?P xs"
    by (rule filter_sortBy)
  have pa: "?P a" and pb: "?P b" using assms by simp_all
  show ?thesis
    using subseq_pair_filter [of ?P a b "sortBy byScore xs" xs, OF pa pb e]
      subseq_pair_filter [of ?P a b xs "sortBy byScore xs", OF pa pb e [symmetric]]
    by blast
qed

text \<open>
  C3. Ranking sorts the filtered records by descending score, keeps exactly the filtered
  records, which stand in catalog order, and is stable: for every score \<open>k\<close> the records
  of score \<open>k\<close> stand in the ranked result in the order in which they stand in the
  catalog, and of two records with equal score one stands before the other in the ranked
  result exactly when it does in the sequence that was sorted.
\<close>

theorem rank_sorted_stable:
  "sorted_wrt (\<lambda>a b. score a \<ge> score b) (rankModels (filterModels c catalog) hw) \<and>
   mset (rankModels (filterModels c catalog) hw) = mset (map (withScore hw) (filterModels c catalog)) \<and>
   subseq (filterModels c catalog) catalog \<and>
   filter (\<lambda>s. score s = k) (rankModels (filterModels c catalog) hw)
     = map (withScore hw)
         (filter (\<lambda>m. matchesCriteria c m \<and> scoreModelForHardware m hw = k) catalog) \<and>
   (score a = score b \<longrightarrow>
      subseq [a, b] (rankModels (filterModels c catalog) hw)
        = subseq [a, b] (map (withScore hw) (filterModels c catalog)))"
proof -
  have "filter (\<lambda>s. score s = k) (map (withScore hw) (filterModels c catalog))
      = map (withScore hw)
          (filter (\<lambda>m. matchesCriteria c m \<and> scoreModelForHardware m hw = k) catalog)"
    by (simp add: filterModels_filter filter_map o_def withScore_def conj_commute)
  moreover have "subseq (filterModels c catalog) catalog"
    by (simp add: filterModels_filter)
  ultimately show ?thesis
    using stable_pairs [of a b "map (withScore hw) (filterModels c catalog)"]
    by (simp add: rankModels_def sorted_sortBy mset_sortBy filter_sortBy)
qed

theorem rank_sorted_stable_witness:
  "score (withScore (Some pcHw) (exB\<lparr>model_id := ''b01''\<rparr>))
     = score (withScore (Some pcHw) (exB\<lparr>model_id := ''b02''\<rparr>)) \<and>
   subseq [withScore (Some pcHw) (exB\<lparr>model_id := ''b01''\<rparr>),
           withScore (Some pcHw) (exB\<lparr>model_id := ''b02''\<rparr>)]
     (rankModels (filterModels noCriteria [exB\<lparr>model_id := ''b01''\<rparr>, exB\<lparr>model_id := ''b02''\<rparr>])
        (Some pcHw)) \<and>
   \<not> subseq [withScore (Some pcHw) (exB\<lparr>model_id := ''b02''\<rparr>),
             withScore (Some pcHw) (exB\<lparr>model_id := ''b01''\<rparr>)]
     (rankModels (filterModels noCriteria [exB\<lparr>model_id := ''b01''\<rparr>, exB\<lparr>model_id := ''b02''\<rparr>])
        (Some pcHw))"
proof -
  let ?m1 = "exB\<lparr>model_id := ''b01''\<rparr>" and ?m2 = "exB\<lparr>model_id := ''b02''\<rparr>"
  let ?a = "withScore (Some pcHw) ?m1" and ?b = "withScore (Some pcHw) ?m2"
  have eq: "score ?a = score ?b"
    by (simp add: withScore_def score_factors hintOf_def gpuPoints_def split: option.splits)
  have ne: "?a \<noteq> ?b"
    by (simp add: withScore_def exB_def)
  have inp: "map (withScore (Some pcHw)) (filterModels noCriteria [?m1, ?m2]) = [?a, ?b]"
    by (simp add: filterModels_noCriteria)
  have fwd: "subseq [?a, ?b] (rankModels (filterModels noCriteria [?m1, ?m2]) (Some pcHw))"
    using rank_sorted_stable [of noCriteria "[?m1, ?m2]" "Some pcHw" 0 ?a ?b] eq
    unfolding inp by simp
  have bwd: "\<not> subseq [?b, ?a] (rankModels (filterModels noCriteria [?m1, ?m2]) (Some pcHw))"
    using rank_sorted_stable [of noCriteria "[?m1, ?m2]" "Some pcHw" 0 ?b ?a] eq ne
    unfolding inp by simp
  from eq fwd bwd show ?thesis by blast
qed

section \<open>Properties of paging\<close>

lemma take_step:
  "take (PAGE_SIZE * n) ys @ take PAGE_SIZE (drop (min (PAGE_SIZE * n) (length ys)) ys)
     = take (PAGE_SIZE * Suc n) ys"
proof (cases "PAGE_SIZE * n \<le> length ys")
  case True
  then have "min (PAGE_SIZE * n) (length ys) = PAGE_SIZE * n" by simp
  then show ?thesis
    using take_add [of "PAGE_SIZE * n" PAGE_SIZE ys] by (simp add: add.commute)
next
  case False
  then show ?thesis by simp
qed

lemma remaining_nat:
  "(if int L - int S \<le> 0 then None else Some (nat (min (int P) (int L - int S))))
     = (if L \<le> S then None else Some (min P (L - S)))"
proof (cases "L \<le> S")
  case True
  then show ?thesis by simp
next
  case False
  then have e: "int L - int S = int (L - S)" by simp
  have m: "min (int P) (int (L - S)) = int (min P (L - S))" by simp
  show ?thesis
    unfolding e m using False by simp
qed

lemma showMoreClick_cards:
  "cards (showMoreClick scored t pg) =
     cards pg @ map (\<lambda>s. \<lparr>card_model = model s,
                            recommended = (score s \<ge> t \<and> score s > 0 \<and> length (cards pg) = 0)\<rparr>)
                  (take PAGE_SIZE (drop (length (cards pg)) scored))"
  by (simp add: showMoreClick_def Let_def)

lemma showMoreClick_summary: "summary_text (showMoreClick scored t pg) = summary_text pg"
  by (simp add: showMoreClick_def Let_def)

lemma showMoreClick_button:
  "show_more (showMoreClick scored t pg) =
     (case show_more pg of
        None \<Rightarrow> None
      | Some k \<Rightarrow>
          if length scored \<le> length (cards (showMoreClick scored t pg)) then None
          else Some (min PAGE_SIZE (length scored - length (cards (showMoreClick scored t pg)))))"
proof (cases "show_more pg")
  case None
  then show ?thesis by (simp add: showMoreClick_def Let_def)
next
  case (Some k)
  define S where "S = length (cards (showMoreClick scored t pg))"
  have "show_more (showMoreClick scored t pg) =
     (if int (length scored) - int S \<le> 0 then None
      else Some (nat (min (int PAGE_SIZE) (int (length scored) - int S))))"
    unfolding S_def using Some by (simp add: showMoreClick_def Let_def) arith
  then show ?thesis
    unfolding remaining_nat S_def using Some by simp
qed

lemma rerender_parts:
  "doc_summary (rerender models hw c doc) = summary_text (filterAndRender models hw c)"
  "doc_cards (rerender models hw c doc) = cards (filterAndRender models hw c)"
  "doc_buttons (rerender models hw c doc) = doc_buttons doc @ newButtons (rankedResult c models hw)"
  by (simp_all add: rerender_def filterAndRender_def Let_def)

lemma newButtons_short: "length scored \<le> PAGE_SIZE \<Longrightarrow> newButtons scored = []"
  by (cases scored) (simp_all add: newButtons_def renderPage_def Let_def)

lemma newButtons_long:
  "length scored > PAGE_SIZE \<Longrightarrow> scored = best # rest \<Longrightarrow>
   newButtons scored =
     [\<lparr>btn_scored = scored, btn_topScore = score best,
       btn_label = min PAGE_SIZE (length scored - PAGE_SIZE)\<rparr>]"
  by (simp add: newButtons_def renderPage_def Let_def)

lemma click_nothing: "length (doc_buttons doc) \<le> k \<Longrightarrow> clickShowMore k doc = doc"
  by (simp add: clickShowMore_def)

lemma funpow_fixed: "f x = x \<Longrightarrow> (f ^^ n) x = x"
  by (induction n) simp_all

lemma click_last:
  assumes "doc_buttons doc = bs @ [b]"
  shows "clickShowMore (length bs) doc =
     \<lparr>doc_summary = doc_summary doc,
      doc_cards = doc_cards doc
        @ map (\<lambda>s. \<lparr>card_model = model s,
                       recommended = (score s \<ge> btn_topScore b \<and> score s > 0
                                      \<and> length (doc_cards doc) = 0)\<rparr>)
            (take PAGE_SIZE (drop (length (doc_cards doc)) (btn_scored b))),
      doc_buttons =
        (if length (btn_scored b)
              \<le> length (doc_cards doc)
                + length (take PAGE_SIZE (drop (length (doc_cards doc)) (btn_scored b)))
         then bs
         else bs @ [b\<lparr>btn_label :=
                min PAGE_SIZE (length (btn_scored b)
                  - (length (doc_cards doc)
                     + length (take PAGE_SIZE (drop (length (doc_cards doc)) (btn_scored b)))))\<rparr>])\<rparr>"
proof -
  let ?pg = "\<lparr>summary_text = doc_summary doc, cards = doc_cards doc, show_more = Some (btn_label b)\<rparr>"
  let ?out = "showMoreClick (btn_scored b) (btn_topScore b) ?pg"
  define added where "added =
      map (\<lambda>s. \<lparr>card_model = model s,
                  recommended = (score s \<ge> btn_topScore b \<and> score s > 0
                                 \<and> length (doc_cards doc) = 0)\<rparr>)
        (take PAGE_SIZE (drop (length (doc_cards doc)) (btn_scored b)))"
  define N where "N = length (doc_cards doc)
      + length (take PAGE_SIZE (drop (length (doc_cards doc)) (btn_scored b)))"
  have k: "length bs < length (doc_buttons doc)" and nth: "doc_buttons doc ! length bs = b"
    using assms by simp_all
  have c: "cards ?out = doc_cards doc @ added"
    unfolding added_def by (simp add: showMoreClick_cards)
  have s: "summary_text ?out = doc_summary doc"
    by (simp add: showMoreClick_summary)
  have len: "length (cards ?out) = N"
    unfolding c added_def N_def by simp
  have m: "show_more ?out =
      (if length (btn_scored b) \<le> N then None
       else Some (min PAGE_SIZE (length (btn_scored b) - N)))"
    using showMoreClick_button [of "btn_scored b" "btn_topScore b" ?pg] unfolding len by simp
  have cut: "take (length bs) (doc_buttons doc) @ drop (Suc (length bs)) (doc_buttons doc) = bs"
    and upd: "(doc_buttons doc)[length bs := x] = bs @ [x]" for x
    using assms by simp_all
  have "clickShowMore (length bs) doc =
     \<lparr>doc_summary = doc_summary doc, doc_cards = doc_cards doc @ added,
      doc_buttons =
        (if length (btn_scored b) \<le> N then bs
         else bs @ [b\<lparr>btn_label := min PAGE_SIZE (length (btn_scored b) - N)\<rparr>])\<rparr>"
  proof (cases "length (btn_scored b) \<le> N")
    case True
    then show ?thesis
      unfolding clickShowMore_def Let_def nth c s m
      using k by (simp add: cut)
  next
    case False
    then show ?thesis
      unfolding clickShowMore_def Let_def nth c s m
      using k by (simp add: upd)
  qed
  then show ?thesis
    unfolding added_def N_def .
qed

lemma afterReveals_Suc:
  "afterReveals models hw c doc (Suc n)
     = clickShowMore (length (doc_buttons doc)) (afterReveals models hw c doc n)"
  by (simp add: afterReveals_def)

lemma afterReveals_long:
  assumes rs: "rs = rankedResult c models hw" and long: "length rs > PAGE_SIZE"
    and hd: "rs = best # rest"
  shows "afterReveals models hw c doc n =
     \<lparr>doc_summary = Matches (length rs) PAGE_SIZE,
      doc_cards = map (firstCard (score best)) (take PAGE_SIZE rs)
                  @ map laterCard (take (PAGE_SIZE * n) (drop PAGE_SIZE rs)),
      doc_buttons = doc_buttons doc
        @ (if PAGE_SIZE * Suc n < length rs
           then [\<lparr>btn_scored = rs, btn_topScore = score best,
                  btn_label = min PAGE_SIZE (length rs - PAGE_SIZE * Suc n)\<rparr>]
           else [])\<rparr>"
proof (induction n)
  case 0
  have "renderPage rs =
      \<lparr>summary_text = Matches (length rs) PAGE_SIZE,
       cards = map (firstCard (score best)) (take PAGE_SIZE rs),
       show_more = Some (min PAGE_SIZE (length rs - PAGE_SIZE))\<rparr>"
    using long by (simp add: renderPage_def hd Let_def firstCard_def)
  then show ?case
    using long newButtons_long [OF long hd]
    by (simp add: afterReveals_def rerender_def Let_def rs [symmetric])
next
  case (Suc n)
  let ?bs = "doc_buttons doc"
  let ?ys = "drop PAGE_SIZE rs"
  let ?D = "afterReveals models hw c doc n"
  show ?case
  proof (cases "PAGE_SIZE * Suc n < length rs")
    case True
    define b where "b = \<lparr>btn_scored = rs, btn_topScore = score best,
        btn_label = min PAGE_SIZE (length rs - PAGE_SIZE * Suc n)\<rparr>"
    have bs: "doc_buttons ?D = ?bs @ [b]"
      using Suc True by (simp add: b_def)
    have cards: "doc_cards ?D = map (firstCard (score best)) (take PAGE_SIZE rs)
        @ map laterCard (take (PAGE_SIZE * n) ?ys)"
      using Suc by simp
    have len: "length (doc_cards ?D) = PAGE_SIZE + PAGE_SIZE * n"
      unfolding cards using True by simp
    have pos: "length (doc_cards ?D) \<noteq> 0"
      unfolding len by (simp add: PAGE_SIZE_def)
    have slice: "drop (length (doc_cards ?D)) (btn_scored b)
        = drop (min (PAGE_SIZE * n) (length ?ys)) ?ys"
      unfolding len using True by (simp add: b_def add.commute min_def)
    have added: "map (\<lambda>s. \<lparr>card_model = model s,
            recommended = (score s \<ge> btn_topScore b \<and> score s > 0
                           \<and> length (doc_cards ?D) = 0)\<rparr>)
          (take PAGE_SIZE (drop (length (doc_cards ?D)) (btn_scored b)))
        = map laterCard (take PAGE_SIZE (drop (min (PAGE_SIZE * n) (length ?ys)) ?ys))"
      unfolding slice using pos by (simp add: laterCard_def)
    have newcards: "doc_cards ?D
          @ map laterCard (take PAGE_SIZE (drop (min (PAGE_SIZE * n) (length ?ys)) ?ys))
        = map (firstCard (score best)) (take PAGE_SIZE rs)
          @ map laterCard (take (PAGE_SIZE * Suc n) ?ys)"
      unfolding cards using take_step [of n ?ys] by (simp flip: map_append)
    have N: "length (doc_cards ?D)
          + length (take PAGE_SIZE (drop (length (doc_cards ?D)) (btn_scored b)))
        = min (PAGE_SIZE * Suc (Suc n)) (length rs)"
      unfolding len using True by (simp add: b_def min_def) arith
    have sm: "doc_summary ?D = Matches (length rs) PAGE_SIZE"
      using Suc by simp
    have "clickShowMore (length ?bs) ?D =
       \<lparr>doc_summary = Matches (length rs) PAGE_SIZE,
        doc_cards = map (firstCard (score best)) (take PAGE_SIZE rs)
                    @ map laterCard (take (PAGE_SIZE * Suc n) ?ys),
        doc_buttons =
          (if length (btn_scored b) \<le> min (PAGE_SIZE * Suc (Suc n)) (length rs) then ?bs
           else ?bs @ [b\<lparr>btn_label := min PAGE_SIZE (length (btn_scored b)
                  - min (PAGE_SIZE * Suc (Suc n)) (length rs))\<rparr>])\<rparr>"
      using click_last [OF bs] unfolding added N newcards sm .
    also have "\<dots> =
       \<lparr>doc_summary = Matches (length rs) PAGE_SIZE,
        doc_cards = map (firstCard (score best)) (take PAGE_SIZE rs)
                    @ map laterCard (take (PAGE_SIZE * Suc n) ?ys),
        doc_buttons = ?bs
          @ (if PAGE_SIZE * Suc (Suc n) < length rs
             then [\<lparr>btn_scored = rs, btn_topScore = score best,
                    btn_label = min PAGE_SIZE (length rs - PAGE_SIZE * Suc (Suc n))\<rparr>]
             else [])\<rparr>"
      by (simp add: b_def min_def)
    finally show ?thesis
      by (simp only: afterReveals_Suc)
  next
    case False
    then have full: "length rs \<le> PAGE_SIZE * Suc n" by simp
    have same: "doc_buttons ?D = ?bs"
      using Suc False by simp
    have stay: "clickShowMore (length ?bs) ?D = ?D"
      by (rule click_nothing) (simp add: same)
    have t: "take (PAGE_SIZE * Suc n) ?ys = take (PAGE_SIZE * n) ?ys"
      using full by simp
    have nb: "\<not> PAGE_SIZE * Suc (Suc n) < length rs"
      using full by simp
    show ?thesis
      unfolding afterReveals_Suc stay using Suc False nb by (simp only: t if_False)
  qed
qed

lemma afterReveals_short:
  assumes rs: "rs = rankedResult c models hw" and short: "length rs \<le> PAGE_SIZE"
  shows "afterReveals models hw c doc n =
     \<lparr>doc_summary = summary_text (renderPage rs), doc_cards = cards (renderPage rs),
      doc_buttons = doc_buttons doc\<rparr>"
proof -
  have r: "rerender models hw c doc =
     \<lparr>doc_summary = summary_text (renderPage rs), doc_cards = cards (renderPage rs),
      doc_buttons = doc_buttons doc\<rparr>"
    using newButtons_short [OF short] by (simp add: rerender_def Let_def rs [symmetric])
  have "clickShowMore (length (doc_buttons doc)) (rerender models hw c doc)
      = rerender models hw c doc"
    by (rule click_nothing) (simp add: r)
  then show ?thesis
    unfolding afterReveals_def using r by (simp add: funpow_fixed)
qed

lemma afterReveals_cards:
  assumes "rankedResult c models hw = best # rest"
  shows "doc_cards (afterReveals models hw c doc n) =
           map (firstCard (score best)) (take PAGE_SIZE (rankedResult c models hw))
           @ map laterCard (take (PAGE_SIZE * n) (drop PAGE_SIZE (rankedResult c models hw)))"
proof (cases "length (rankedResult c models hw) \<le> PAGE_SIZE")
  case True
  show ?thesis
    unfolding afterReveals_short [OF refl True]
    using True by (simp add: renderPage_def assms Let_def firstCard_def)
next
  case False
  then have "length (rankedResult c models hw) > PAGE_SIZE" by simp
  from afterReveals_long [OF refl this assms, of doc n] show ?thesis by simp
qed

lemma afterReveals_models:
  "map card_model (doc_cards (afterReveals models hw c doc n))
     = map model (take (PAGE_SIZE * Suc n) (rankedResult c models hw))"
proof (cases "rankedResult c models hw")
  case Nil
  then have "length (rankedResult c models hw) \<le> PAGE_SIZE" by simp
  from afterReveals_short [OF refl this, of doc n] show ?thesis
    by (simp add: Nil renderPage_def)
next
  case (Cons best rest)
  have "map card_model (doc_cards (afterReveals models hw c doc n)) =
      map model (take PAGE_SIZE (rankedResult c models hw)
                 @ take (PAGE_SIZE * n) (drop PAGE_SIZE (rankedResult c models hw)))"
    unfolding afterReveals_cards [OF Cons] by (simp add: o_def firstCard_def laterCard_def)
  then show ?thesis
    using take_add [of PAGE_SIZE "PAGE_SIZE * n" "rankedResult c models hw"] by simp
qed

text \<open>
  As long as only the button of the current pass is clicked, the number of cards follows
  the pages of the result, whatever buttons earlier passes left attached.
\<close>

lemma own_button_paging:
  "revealedCount (afterReveals models hw c doc n)
     = min (PAGE_SIZE * Suc n) (length (rankedResult c models hw))"
proof -
  have "length (map card_model (doc_cards (afterReveals models hw c doc n))) =
      length (map model (take (PAGE_SIZE * Suc n) (rankedResult c models hw)))"
    by (simp only: afterReveals_models)
  then show ?thesis
    by (simp add: revealedCount_def min.commute)
qed

section \<open>The best-match chip\<close>

lemma maxScore_sorted:
  assumes "sorted_wrt (\<lambda>a b. score a \<ge> score b) (best # rest)"
  shows "maxScore (best # rest) = score best"
  unfolding maxScore_def
proof (rule Max_eqI)
  show "finite (set (map score (best # rest)))" by simp
  show "score best \<in> set (map score (best # rest))" by simp
  fix y assume "y \<in> set (map score (best # rest))"
  then show "y \<le> score best" using assms by auto
qed

lemma sorted_le_maxScore:
  assumes "sorted_wrt (\<lambda>a b. score a \<ge> score b) rs" and "i < length rs"
  shows "score (rs ! i) \<le> maxScore rs"
  unfolding maxScore_def using assms(2) by (intro Max_ge) auto

lemma sorted_rankedResult:
  "sorted_wrt (\<lambda>a b. score a \<ge> score b) (rankedResult c catalog hw)"
  by (simp add: rankedResult_def rankModels_def sorted_sortBy)

lemma flags_own_button:
  assumes i: "i < revealedCount (afterReveals models hw c doc n)"
  shows "card_model (doc_cards (afterReveals models hw c doc n) ! i)
           = model (rankedResult c models hw ! i) \<and>
         recommended (doc_cards (afterReveals models hw c doc n) ! i) =
           (i < PAGE_SIZE \<and> score (rankedResult c models hw ! i) = maxScore (rankedResult c models hw)
            \<and> 0 < maxScore (rankedResult c models hw))"
proof -
  let ?rs = "rankedResult c models hw"
  note sorted = sorted_rankedResult [of c models hw]
  from i have ilen: "i < length ?rs" and irev: "i < PAGE_SIZE * Suc n"
    by (simp_all add: own_button_paging)
  then obtain best rest where hd: "?rs = best # rest"
    by (cases ?rs) auto
  have top: "maxScore ?rs = score best"
    using maxScore_sorted sorted unfolding hd by blast
  have le: "score (?rs ! i) \<le> score best"
    using sorted_le_maxScore [OF sorted ilen] top by simp
  note cs = afterReveals_cards [OF hd, of doc n]
  show ?thesis
  proof (cases "i < PAGE_SIZE")
    case True
    then have "doc_cards (afterReveals models hw c doc n) ! i = firstCard (score best) (?rs ! i)"
      unfolding cs using ilen by (simp add: nth_append)
    then show ?thesis
      using True le top by (auto simp: firstCard_def)
  next
    case False
    then have ge: "PAGE_SIZE \<le> i" by simp
    have l1: "length (map (firstCard (score best)) (take PAGE_SIZE ?rs)) = PAGE_SIZE"
      using ge ilen by simp
    have "doc_cards (afterReveals models hw c doc n) ! i =
        map laterCard (take (PAGE_SIZE * n) (drop PAGE_SIZE ?rs)) ! (i - PAGE_SIZE)"
      unfolding cs using ge l1 by (simp add: nth_append)
    also have "\<dots> = laterCard (drop PAGE_SIZE ?rs ! (i - PAGE_SIZE))"
    proof -
      have "i - PAGE_SIZE < PAGE_SIZE * n" and "i - PAGE_SIZE < length (drop PAGE_SIZE ?rs)"
        using ge ilen irev by simp_all
      then show ?thesis by simp
    qed
    also have "\<dots> = laterCard (?rs ! i)"
      using ge ilen by simp
    finally show ?thesis
      using False by (simp add: laterCard_def)
  qed
qed

lemma no_flags_own_button:
  assumes low: "rankedResult c models hw = [] \<or> maxScore (rankedResult c models hw) \<le> 0"
  shows "filter recommended (doc_cards (afterReveals models hw c doc n)) = []"
proof -
  let ?d = "afterReveals models hw c doc n"
  have "\<not> recommended (doc_cards ?d ! i)" if "i < length (doc_cards ?d)" for i
  proof -
    from that have i: "i < revealedCount ?d" by (simp add: revealedCount_def)
    then have "rankedResult c models hw \<noteq> []" by (auto simp: own_button_paging)
    with low have "maxScore (rankedResult c models hw) \<le> 0" by simp
    with flags_own_button [OF i] show ?thesis by simp
  qed
  then have "\<forall>x \<in> set (doc_cards ?d). \<not> recommended x"
    by (metis in_set_conv_nth)
  then show ?thesis by (simp add: filter_empty_conv)
qed

text \<open>
  C1, as the source has it by design. Take any document, with whatever buttons earlier
  passes left attached, a render pass on it, and any number of clicks on the button of
  that pass. The card at position \<open>i\<close> shows the record at position \<open>i\<close> of the ranked
  result, and it carries the best-match chip exactly when it is one of the first
  \<open>PAGE_SIZE\<close> records (the first page), its score is the maximum score of the result and
  that maximum is greater than 0. The cards that the button of the pass adds never carry
  the chip, and none of these cards carries it when the result is empty or its maximum
  is at most 0. Clicks on a button of an earlier pass are not covered.
\<close>

theorem best_match_first_page:
  "(i < revealedCount (afterReveals catalog hw c doc n) \<longrightarrow>
      card_model (doc_cards (afterReveals catalog hw c doc n) ! i)
        = model (rankedResult c catalog hw ! i) \<and>
      recommended (doc_cards (afterReveals catalog hw c doc n) ! i)
        = (i < PAGE_SIZE \<and>
           score (rankedResult c catalog hw ! i) = maxScore (rankedResult c catalog hw) \<and>
           0 < maxScore (rankedResult c catalog hw))) \<and>
   (rankedResult c catalog hw = [] \<or> maxScore (rankedResult c catalog hw) \<le> 0 \<longrightarrow>
      filter recommended (doc_cards (afterReveals catalog hw c doc n)) = []) \<and>
   doc_cards (afterReveals catalog hw c doc 0) = cards (filterAndRender catalog hw c) \<and>
   afterReveals catalog hw c doc 0 = rerender catalog hw c doc \<and>
   afterReveals catalog hw c doc (Suc n)
     = clickShowMore (length (doc_buttons doc)) (afterReveals catalog hw c doc n)"
  using flags_own_button [of i catalog hw c doc n] no_flags_own_button [of c catalog hw doc n]
  by (simp add: afterReveals_def rerender_parts)

theorem best_match_first_page_witness:
  "(0::nat) < revealedCount (afterReveals [exB, exA] (Some exHw) noCriteria emptyDocument 0) \<and>
   card_model (doc_cards (afterReveals [exB, exA] (Some exHw) noCriteria emptyDocument 0) ! 0) = exA \<and>
   recommended (doc_cards (afterReveals [exB, exA] (Some exHw) noCriteria emptyDocument 0) ! 0) \<and>
   maxScore (rankedResult noCriteria [exB] (Some exHw)) \<le> 0 \<and>
   filter recommended (doc_cards (afterReveals [exB] (Some exHw) noCriteria emptyDocument 0)) = []"
proof -
  let ?d = "afterReveals [exB, exA] (Some exHw) noCriteria emptyDocument 0"
  let ?rs = "rankedResult noCriteria [exB, exA] (Some exHw)"
  have r: "?rs ! 0 = \<lparr>model = exA, score = 6\<rparr> \<and> maxScore ?rs = 6 \<and> length ?rs = 2"
    by code_simp
  have h1: "(0::nat) < revealedCount ?d"
    using r by (simp add: own_button_paging PAGE_SIZE_def)
  have h2: "maxScore (rankedResult noCriteria [exB] (Some exHw)) \<le> 0"
    by code_simp
  from best_match_first_page [of 0 "[exB, exA]" "Some exHw" noCriteria emptyDocument 0] h1
  have "card_model (doc_cards ?d ! 0) = model (?rs ! 0)"
    and "recommended (doc_cards ?d ! 0)
      = (0 < PAGE_SIZE \<and> score (?rs ! 0) = maxScore ?rs \<and> 0 < maxScore ?rs)"
    by blast+
  then have first: "card_model (doc_cards ?d ! 0) = exA" "recommended (doc_cards ?d ! 0)"
    using r by (simp_all add: PAGE_SIZE_def)
  from best_match_first_page [of 0 "[exB]" "Some exHw" noCriteria emptyDocument 0] h2
  have "filter recommended (doc_cards (afterReveals [exB] (Some exHw) noCriteria emptyDocument 0)) = []"
    by blast
  with h1 h2 first show ?thesis by blast
qed

text \<open>
  Eleven records with distinct identifiers that each score 2 on the PC: after the render
  pass and one click on its button all eleven are shown, the eleventh has the maximum
  score 2, and it carries no chip.
\<close>

theorem best_match_later_page_counterexample:
  "distinct (map model_id elevenModels) \<and>
   revealedCount (afterReveals elevenModels (Some pcHw) noCriteria emptyDocument 1) = 11 \<and>
   score (rankedResult noCriteria elevenModels (Some pcHw) ! 10) = 2 \<and>
   maxScore (rankedResult noCriteria elevenModels (Some pcHw)) = 2 \<and>
   \<not> recommended (doc_cards (afterReveals elevenModels (Some pcHw) noCriteria emptyDocument 1) ! 10)"
proof -
  let ?rs = "rankedResult noCriteria elevenModels (Some pcHw)"
  let ?d = "afterReveals elevenModels (Some pcHw) noCriteria emptyDocument 1"
  have d: "distinct (map model_id elevenModels)"
    by (simp add: elevenModels_def)
  have two: "scoreModelForHardware (exB\<lparr>model_id := i\<rparr>) (Some pcHw) = 2" for i
  proof -
    have "scoreModelForHardware (exB\<lparr>model_id := i\<rparr>) (Some pcHw)
        = scoreModelForHardware exB (Some pcHw)"
      by (simp add: score_factors hintOf_def gpuPoints_def split: option.splits)
    also have "\<dots> = 2" by code_simp
    finally show ?thesis .
  qed
  have sc: "map (withScore (Some pcHw)) elevenModels
      = map (\<lambda>m. \<lparr>model = m, score = 2\<rparr>) elevenModels"
    by (simp add: elevenModels_def withScore_def two)
  have rs: "?rs = map (\<lambda>m. \<lparr>model = m, score = 2\<rparr>) elevenModels"
    unfolding rankedResult_def rankModels_def filterModels_noCriteria sc
    by (rule sortBy_same_score [where k = 2]) (simp add: list_all_iff)
  have len: "length ?rs = 11"
    unfolding rs by (simp add: elevenModels_def)
  have n: "revealedCount ?d = 11"
    by (simp add: own_button_paging len PAGE_SIZE_def)
  have s: "score (?rs ! 10) = 2"
    unfolding rs by (simp add: elevenModels_def)
  have m: "maxScore ?rs = 2"
    unfolding rs by (simp add: maxScore_def elevenModels_def)
  have "\<not> recommended (doc_cards ?d ! 10)"
    using flags_own_button [of 10 elevenModels "Some pcHw" noCriteria emptyDocument 1] n
    by (simp add: PAGE_SIZE_def)
  with d n s m show ?thesis by blast
qed

section \<open>A button left by an earlier pass\<close>

lemma sortBy_sorted:
  "sorted_wrt (\<lambda>a b. score a \<ge> score b) xs \<Longrightarrow> sortBy byScore xs = xs"
proof (induction xs)
  case Nil
  show ?case by (simp add: sortBy_def)
next
  case (Cons x xs)
  then have rest: "sortBy byScore xs = xs" by simp
  have "insertBy byScore x xs = x # xs"
    using Cons.prems by (cases xs) (simp_all add: byScore_def)
  then show ?case
    using rest by (simp add: sortBy_def)
qed

lemma twelve_ranked:
  "rankedResult noCriteria twelveModels (Some pcHw)
     = map (\<lambda>m. \<lparr>model = m, score = 2\<rparr>) elevenModels @ [\<lparr>model = exA, score = 0\<rparr>]"
proof -
  have two: "scoreModelForHardware (exB\<lparr>model_id := i\<rparr>) (Some pcHw) = 2" for i
  proof -
    have "scoreModelForHardware (exB\<lparr>model_id := i\<rparr>) (Some pcHw)
        = scoreModelForHardware exB (Some pcHw)"
      by (simp add: score_factors hintOf_def gpuPoints_def split: option.splits)
    also have "\<dots> = 2" by code_simp
    finally show ?thesis .
  qed
  have zero: "scoreModelForHardware exA (Some pcHw) = 0"
    by code_simp
  have sc: "map (withScore (Some pcHw)) twelveModels
      = map (\<lambda>m. \<lparr>model = m, score = 2\<rparr>) elevenModels @ [\<lparr>model = exA, score = 0\<rparr>]"
    by (simp add: twelveModels_def elevenModels_def withScore_def two zero)
  show ?thesis
    unfolding rankedResult_def rankModels_def filterModels_noCriteria sc
    by (rule sortBy_sorted) (simp add: sorted_wrt_append elevenModels_def)
qed

lemma twelve_first_pass:
  "rerender twelveModels (Some pcHw) noCriteria emptyDocument =
     \<lparr>doc_summary = Matches 12 10,
      doc_cards = map (\<lambda>m. \<lparr>card_model = m, recommended = True\<rparr>) (take 10 elevenModels),
      doc_buttons = [\<lparr>btn_scored = rankedResult noCriteria twelveModels (Some pcHw),
                      btn_topScore = 2, btn_label = 2\<rparr>]\<rparr>"
proof -
  let ?rs = "rankedResult noCriteria twelveModels (Some pcHw)"
  have len: "length ?rs = 12" and long: "length ?rs > PAGE_SIZE"
    unfolding twelve_ranked by (simp_all add: elevenModels_def PAGE_SIZE_def)
  have hd: "?rs = \<lparr>model = exB\<lparr>model_id := ''b01''\<rparr>, score = 2\<rparr> # tl ?rs"
    unfolding twelve_ranked by (simp add: elevenModels_def)
  have first: "map (firstCard 2) (take PAGE_SIZE ?rs)
      = map (\<lambda>m. \<lparr>card_model = m, recommended = True\<rparr>) (take 10 elevenModels)"
    unfolding twelve_ranked by (simp add: elevenModels_def PAGE_SIZE_def firstCard_def)
  from afterReveals_long [OF refl long hd, of emptyDocument 0] show ?thesis
    unfolding len by (simp add: afterReveals_def first) (simp add: PAGE_SIZE_def emptyDocument_def)
qed

lemma click_only_button:
  assumes "doc_buttons doc = [b]"
  shows "revealedCount (clickShowMore 0 doc)
           = revealedCount doc + min PAGE_SIZE (length (btn_scored b) - revealedCount doc) \<and>
         doc_summary (clickShowMore 0 doc) = doc_summary doc \<and>
         map btn_label (doc_buttons (clickShowMore 0 doc))
           = (if length (btn_scored b)
                  \<le> revealedCount doc + min PAGE_SIZE (length (btn_scored b) - revealedCount doc)
              then []
              else [min PAGE_SIZE (length (btn_scored b)
                      - (revealedCount doc
                         + min PAGE_SIZE (length (btn_scored b) - revealedCount doc)))]) \<and>
         map btn_scored (doc_buttons (clickShowMore 0 doc))
           = (if length (btn_scored b)
                  \<le> revealedCount doc + min PAGE_SIZE (length (btn_scored b) - revealedCount doc)
              then [] else [btn_scored b])"
proof -
  have "doc_buttons doc = [] @ [b]" using assms by simp
  from click_last [OF this] show ?thesis
    by (auto simp add: revealedCount_def min_def)
qed

lemma twelve_general:
  "rankedResult generalOnly twelveModels (Some pcHw) = [\<lparr>model = exA, score = 0\<rparr>]"
proof -
  have "filterModels generalOnly twelveModels = [exA]"
    by (simp add: filterModels_def Let_def purposeFilter_def toolsFilter_def searchFilter_def
        searchOf_def trim_def toLowerCase_def generalOnly_def twelveModels_def elevenModels_def
        exA_def exB_def)
  moreover have "scoreModelForHardware exA (Some pcHw) = 0"
    by code_simp
  ultimately show ?thesis
    by (simp add: rankedResult_def rankModels_def withScore_def sortBy_def)
qed

lemma twelve_nothing: "rankedResult noSuchText twelveModels (Some pcHw) = []"
proof -
  have "filterModels noSuchText twelveModels = []"
    by code_simp
  then show ?thesis
    by (simp add: rankedResult_def rankModels_def sortBy_def)
qed

lemma twelve_second_pass:
  "rerender twelveModels (Some pcHw) generalOnly
     (rerender twelveModels (Some pcHw) noCriteria emptyDocument) =
     \<lparr>doc_summary = Matches 1 1,
      doc_cards = [\<lparr>card_model = exA, recommended = False\<rparr>],
      doc_buttons = [\<lparr>btn_scored = rankedResult noCriteria twelveModels (Some pcHw),
                      btn_topScore = 2, btn_label = 2\<rparr>]\<rparr>"
  unfolding twelve_first_pass
  by (simp add: rerender_def Let_def twelve_general renderPage_def newButtons_def PAGE_SIZE_def)

lemma twelve_empty_pass:
  "rerender twelveModels (Some pcHw) noSuchText
     (rerender twelveModels (Some pcHw) noCriteria emptyDocument) =
     \<lparr>doc_summary = NoModelsMatch, doc_cards = [],
      doc_buttons = [\<lparr>btn_scored = rankedResult noCriteria twelveModels (Some pcHw),
                      btn_topScore = 2, btn_label = 2\<rparr>]\<rparr>"
  unfolding twelve_first_pass
  by (simp add: rerender_def Let_def twelve_nothing renderPage_def newButtons_def)

text \<open>
  C7. The number of revealed records does not stay within the total on a document in
  which an earlier pass left its button. The catalog has twelve records. A first pass with empty controls shows ten and
  attaches "Show 2 more". The purpose select is then set to "general": the new ranked
  result has one record, the list shows it, and the old button is still attached. A
  click on it takes the number of cards from 1 to 11, past the total of 1 although
  everything was already revealed, and a second click takes it to 12 and removes the
  button.
\<close>

theorem stale_button_exceeds_total:
  "length (rankedResult noCriteria twelveModels (Some pcHw)) = 12 \<and>
   length (rankedResult generalOnly twelveModels (Some pcHw)) = 1 \<and>
   revealedCount (rerender twelveModels (Some pcHw) generalOnly
                    (rerender twelveModels (Some pcHw) noCriteria emptyDocument)) = 1 \<and>
   map btn_label (doc_buttons (rerender twelveModels (Some pcHw) generalOnly
                    (rerender twelveModels (Some pcHw) noCriteria emptyDocument))) = [2] \<and>
   revealedCount (clickShowMore 0 (rerender twelveModels (Some pcHw) generalOnly
                    (rerender twelveModels (Some pcHw) noCriteria emptyDocument))) = 11 \<and>
   map btn_label (doc_buttons (clickShowMore 0 (rerender twelveModels (Some pcHw) generalOnly
                    (rerender twelveModels (Some pcHw) noCriteria emptyDocument)))) = [1] \<and>
   revealedCount (clickShowMore 0 (clickShowMore 0 (rerender twelveModels (Some pcHw) generalOnly
                    (rerender twelveModels (Some pcHw) noCriteria emptyDocument)))) = 12 \<and>
   doc_buttons (clickShowMore 0 (clickShowMore 0 (rerender twelveModels (Some pcHw) generalOnly
                    (rerender twelveModels (Some pcHw) noCriteria emptyDocument)))) = []"
proof -
  let ?rs = "rankedResult noCriteria twelveModels (Some pcHw)"
  let ?b = "\<lparr>btn_scored = ?rs, btn_topScore = 2, btn_label = 2\<rparr>"
  let ?d2 = "rerender twelveModels (Some pcHw) generalOnly
      (rerender twelveModels (Some pcHw) noCriteria emptyDocument)"
  have l12: "length ?rs = 12"
    unfolding twelve_ranked by (simp add: elevenModels_def)
  have l1: "length (rankedResult generalOnly twelveModels (Some pcHw)) = 1"
    by (simp add: twelve_general)
  have c2: "revealedCount ?d2 = 1" and b2: "doc_buttons ?d2 = [?b]"
    by (simp_all add: twelve_second_pass revealedCount_def)
  have lab2: "map btn_label (doc_buttons ?d2) = [2]"
    by (simp add: b2)
  note one = click_only_button [OF b2]
  have c3: "revealedCount (clickShowMore 0 ?d2) = 11"
    using one by (simp add: c2 l12 PAGE_SIZE_def)
  have lab3: "map btn_label (doc_buttons (clickShowMore 0 ?d2)) = [1]"
    using one by (simp add: c2 l12 PAGE_SIZE_def)
  have sc3: "map btn_scored (doc_buttons (clickShowMore 0 ?d2)) = [?rs]"
    using one by (simp add: c2 l12 PAGE_SIZE_def)
  then obtain b' where b3: "doc_buttons (clickShowMore 0 ?d2) = [b']" and s3: "btn_scored b' = ?rs"
    by auto
  note two = click_only_button [OF b3]
  have c4: "revealedCount (clickShowMore 0 (clickShowMore 0 ?d2)) = 12"
    using two by (simp add: c3 s3 l12 PAGE_SIZE_def)
  have "map btn_label (doc_buttons (clickShowMore 0 (clickShowMore 0 ?d2))) = []"
    using two by (simp add: c3 s3 l12 PAGE_SIZE_def)
  then have b4: "doc_buttons (clickShowMore 0 (clickShowMore 0 ?d2)) = []"
    by simp
  from l12 l1 c2 lab2 c3 lab3 c4 b4 show ?thesis
    by (intro conjI)
qed

text \<open>
  The same leftover button after a pass that matches nothing: the summary says that no
  model matches, the list is empty, and a click on the old button fills it with ten
  cards of the earlier result, each with the chip, since the handler counts no card
  already shown.
\<close>

lemma stale_button_flags_cards:
  "doc_summary (rerender twelveModels (Some pcHw) noSuchText
                  (rerender twelveModels (Some pcHw) noCriteria emptyDocument)) = NoModelsMatch \<and>
   doc_cards (rerender twelveModels (Some pcHw) noSuchText
                (rerender twelveModels (Some pcHw) noCriteria emptyDocument)) = [] \<and>
   doc_summary (clickShowMore 0 (rerender twelveModels (Some pcHw) noSuchText
                  (rerender twelveModels (Some pcHw) noCriteria emptyDocument))) = NoModelsMatch \<and>
   map recommended (doc_cards (clickShowMore 0 (rerender twelveModels (Some pcHw) noSuchText
                  (rerender twelveModels (Some pcHw) noCriteria emptyDocument))))
     = replicate 10 True"
proof -
  let ?rs = "rankedResult noCriteria twelveModels (Some pcHw)"
  let ?b = "\<lparr>btn_scored = ?rs, btn_topScore = 2, btn_label = 2\<rparr>"
  let ?d3 = "rerender twelveModels (Some pcHw) noSuchText
      (rerender twelveModels (Some pcHw) noCriteria emptyDocument)"
  have b3: "doc_buttons ?d3 = [] @ [?b]" and c3: "doc_cards ?d3 = []"
    and s3: "doc_summary ?d3 = NoModelsMatch"
    by (simp_all add: twelve_empty_pass)
  have ten: "map score (take PAGE_SIZE ?rs) = [2, 2, 2, 2, 2, 2, 2, 2, 2, 2]"
    unfolding twelve_ranked by (simp add: elevenModels_def PAGE_SIZE_def)
  have "map recommended (doc_cards (clickShowMore 0 ?d3))
      = map (\<lambda>x. 2 \<le> x \<and> 0 < x) (map score (take PAGE_SIZE ?rs))"
    using click_last [OF b3] by (simp add: c3 o_def)
  also have "\<dots> = replicate 10 True"
    unfolding ten by code_simp
  finally have flags: "map recommended (doc_cards (clickShowMore 0 ?d3)) = replicate 10 True" .
  have "doc_summary (clickShowMore 0 ?d3) = NoModelsMatch"
    using click_last [OF b3] by (simp add: s3)
  with s3 c3 flags show ?thesis by (intro conjI)
qed

section \<open>The specification's example and the empty catalog\<close>

text \<open>
  C2. Record A has the hint arch arm64 and min_ram_gb 8, record B the hint arch x86_64
  and min_ram_gb 32 (the other fields of both are arbitrary), and the machine is Apple
  silicon with 16 GB and 8 cores. A scores 6 and B scores -2, the ranked result is
  [A, B] whichever way round the catalog lists them, and the rendered page shows A with
  the best-match chip and B without it.
\<close>

theorem example_two_records:
  "scoreModelForHardware
     (a\<lparr>hardware_profile := Some \<lparr>arch = Some ''arm64'', min_ram_gb = Some 8, min_cores = None\<rparr>\<rparr>)
     (Some \<lparr>os = sys, cores = Some 8, approxMemoryGb = Some 16, isAppleSilicon = True, gpu = None\<rparr>)
     = 6 \<and>
   scoreModelForHardware
     (b\<lparr>hardware_profile := Some \<lparr>arch = Some ''x86_64'', min_ram_gb = Some 32, min_cores = None\<rparr>\<rparr>)
     (Some \<lparr>os = sys, cores = Some 8, approxMemoryGb = Some 16, isAppleSilicon = True, gpu = None\<rparr>)
     = - 2 \<and>
   rankedResult noCriteria
     [a\<lparr>hardware_profile := Some \<lparr>arch = Some ''arm64'', min_ram_gb = Some 8, min_cores = None\<rparr>\<rparr>,
      b\<lparr>hardware_profile := Some \<lparr>arch = Some ''x86_64'', min_ram_gb = Some 32, min_cores = None\<rparr>\<rparr>]
     (Some \<lparr>os = sys, cores = Some 8, approxMemoryGb = Some 16, isAppleSilicon = True, gpu = None\<rparr>)
     = [\<lparr>model = a\<lparr>hardware_profile := Some \<lparr>arch = Some ''arm64'', min_ram_gb = Some 8, min_cores = None\<rparr>\<rparr>,
         score = 6\<rparr>,
        \<lparr>model = b\<lparr>hardware_profile := Some \<lparr>arch = Some ''x86_64'', min_ram_gb = Some 32, min_cores = None\<rparr>\<rparr>,
         score = - 2\<rparr>] \<and>
   rankedResult noCriteria
     [b\<lparr>hardware_profile := Some \<lparr>arch = Some ''x86_64'', min_ram_gb = Some 32, min_cores = None\<rparr>\<rparr>,
      a\<lparr>hardware_profile := Some \<lparr>arch = Some ''arm64'', min_ram_gb = Some 8, min_cores = None\<rparr>\<rparr>]
     (Some \<lparr>os = sys, cores = Some 8, approxMemoryGb = Some 16, isAppleSilicon = True, gpu = None\<rparr>)
     = [\<lparr>model = a\<lparr>hardware_profile := Some \<lparr>arch = Some ''arm64'', min_ram_gb = Some 8, min_cores = None\<rparr>\<rparr>,
         score = 6\<rparr>,
        \<lparr>model = b\<lparr>hardware_profile := Some \<lparr>arch = Some ''x86_64'', min_ram_gb = Some 32, min_cores = None\<rparr>\<rparr>,
         score = - 2\<rparr>] \<and>
   filterAndRender
     [a\<lparr>hardware_profile := Some \<lparr>arch = Some ''arm64'', min_ram_gb = Some 8, min_cores = None\<rparr>\<rparr>,
      b\<lparr>hardware_profile := Some \<lparr>arch = Some ''x86_64'', min_ram_gb = Some 32, min_cores = None\<rparr>\<rparr>]
     (Some \<lparr>os = sys, cores = Some 8, approxMemoryGb = Some 16, isAppleSilicon = True, gpu = None\<rparr>)
     noCriteria
     = \<lparr>summary_text = Matches 2 2,
        cards = [\<lparr>card_model = a\<lparr>hardware_profile := Some \<lparr>arch = Some ''arm64'', min_ram_gb = Some 8, min_cores = None\<rparr>\<rparr>,
                  recommended = True\<rparr>,
                 \<lparr>card_model = b\<lparr>hardware_profile := Some \<lparr>arch = Some ''x86_64'', min_ram_gb = Some 32, min_cores = None\<rparr>\<rparr>,
                  recommended = False\<rparr>],
        show_more = None\<rparr>"
proof -
  let ?A = "a\<lparr>hardware_profile := Some \<lparr>arch = Some ''arm64'', min_ram_gb = Some 8, min_cores = None\<rparr>\<rparr>"
  let ?B = "b\<lparr>hardware_profile := Some \<lparr>arch = Some ''x86_64'', min_ram_gb = Some 32, min_cores = None\<rparr>\<rparr>"
  let ?hw = "\<lparr>os = sys, cores = Some 8, approxMemoryGb = Some 16, isAppleSilicon = True, gpu = None\<rparr>"
  have sa: "scoreModelForHardware ?A (Some ?hw) = 6"
    by (simp add: score_factors hintOf_def archPoints_def ramPoints_def coresPoints_def gpuPoints_def)
  have sb: "scoreModelForHardware ?B (Some ?hw) = - 2"
    by (simp add: score_factors hintOf_def archPoints_def ramPoints_def coresPoints_def gpuPoints_def)
  have ab: "rankedResult noCriteria [?A, ?B] (Some ?hw) = [\<lparr>model = ?A, score = 6\<rparr>, \<lparr>model = ?B, score = - 2\<rparr>]"
    by (simp add: rankedResult_def filterModels_noCriteria rankModels_def withScore_def sa sb
        sortBy_def byScore_def)
  have ba: "rankedResult noCriteria [?B, ?A] (Some ?hw) = [\<lparr>model = ?A, score = 6\<rparr>, \<lparr>model = ?B, score = - 2\<rparr>]"
    by (simp add: rankedResult_def filterModels_noCriteria rankModels_def withScore_def sa sb
        sortBy_def byScore_def)
  have pg: "filterAndRender [?A, ?B] (Some ?hw) noCriteria =
      \<lparr>summary_text = Matches 2 2,
       cards = [\<lparr>card_model = ?A, recommended = True\<rparr>, \<lparr>card_model = ?B, recommended = False\<rparr>],
       show_more = None\<rparr>"
    by (simp add: filterAndRender_def ab renderPage_def Let_def PAGE_SIZE_def)
  from sa sb ab ba pg show ?thesis by (intro conjI)
qed

text \<open>
  C9. A failed load leaves the empty catalog. On an empty catalog, whatever the controls
  and the hardware profile, nothing passes the filters, the ranked result is empty, and
  the render pass writes the "No models match the current filters." summary with no card
  and attaches no button, on every document. Clicks where the pass would have put its
  button change nothing, and a pass on a document without buttons leaves nothing to
  click at all; since no pass on the empty catalog attaches a button, that is every
  document a session on the empty catalog reaches from the loaded page.
\<close>

theorem empty_catalog_no_matches:
  "catalogAfterLoad None = [] \<and>
   filterAndRender (catalogAfterLoad None) hw c
     = \<lparr>summary_text = NoModelsMatch, cards = [], show_more = None\<rparr> \<and>
   filterModels c [] = [] \<and>
   rankedResult c [] hw = [] \<and>
   filterAndRender [] hw c = \<lparr>summary_text = NoModelsMatch, cards = [], show_more = None\<rparr> \<and>
   rerender [] hw c doc
     = \<lparr>doc_summary = NoModelsMatch, doc_cards = [], doc_buttons = doc_buttons doc\<rparr> \<and>
   afterReveals [] hw c doc n
     = \<lparr>doc_summary = NoModelsMatch, doc_cards = [], doc_buttons = doc_buttons doc\<rparr> \<and>
   clickShowMore k (rerender [] hw c (doc\<lparr>doc_buttons := []\<rparr>))
     = \<lparr>doc_summary = NoModelsMatch, doc_cards = [], doc_buttons = []\<rparr>"
proof -
  have f: "filterModels c [] = []"
    by (simp add: filterModels_filter)
  have r: "rankedResult c [] hw = []"
    by (simp add: rankedResult_def f rankModels_def sortBy_def)
  have p: "renderPage [] = \<lparr>summary_text = NoModelsMatch, cards = [], show_more = None\<rparr>"
    by (simp add: renderPage_def)
  have short: "length (rankedResult c [] hw) \<le> PAGE_SIZE"
    by (simp add: r)
  have d: "rerender [] hw c doc
      = \<lparr>doc_summary = NoModelsMatch, doc_cards = [], doc_buttons = doc_buttons doc\<rparr>" for doc
    by (simp add: rerender_def Let_def r p newButtons_def)
  have a: "afterReveals [] hw c doc n
      = \<lparr>doc_summary = NoModelsMatch, doc_cards = [], doc_buttons = doc_buttons doc\<rparr>"
    using afterReveals_short [OF refl short, of doc n] by (simp add: r p)
  show ?thesis
    by (simp add: f r p d a filterAndRender_def catalogAfterLoad_def clickShowMore_def)
qed

section \<open>The GPU factor\<close>

lemma startsWith_iff: "startsWith h n \<longleftrightarrow> (\<exists>ss. h = n @ ss)"
  by (induction h n rule: startsWith.induct) auto

lemma includes_str_iff: "includes_str h n \<longleftrightarrow> (\<exists>ps ss. h = ps @ n @ ss)"
proof (induction h)
  case Nil
  show ?case by simp
next
  case (Cons x xs)
  show ?case
  proof
    assume "includes_str (x # xs) n"
    then consider "startsWith (x # xs) n" | "includes_str xs n" by auto
    then show "\<exists>ps ss. x # xs = ps @ n @ ss"
    proof cases
      case 1
      then obtain ss where "x # xs = n @ ss" by (auto simp: startsWith_iff)
      then have "x # xs = [] @ n @ ss" by simp
      then show ?thesis by blast
    next
      case 2
      then obtain ps ss where "xs = ps @ n @ ss" using Cons by blast
      then have "x # xs = (x # ps) @ n @ ss" by simp
      then show ?thesis by blast
    qed
  next
    assume "\<exists>ps ss. x # xs = ps @ n @ ss"
    then obtain ps ss where e: "x # xs = ps @ n @ ss" by blast
    show "includes_str (x # xs) n"
    proof (cases ps)
      case Nil
      then have "startsWith (x # xs) n" using e by (auto simp: startsWith_iff)
      then show ?thesis by simp
    next
      case (Cons p ps')
      then have "xs = ps' @ n @ ss" using e by simp
      then have "includes_str xs n" using Cons.IH by blast
      then show ?thesis by simp
    qed
  qed
qed

text \<open>
  C5, as the source has it. When the GPU string is present and not empty and
  \<open>recommended_for\<close> is a non-empty array, the GPU test adds exactly 2 to the score if,
  for some entry, the field at index 1 of the lower-cased entry split at every single
  space (the empty string when there is no such field) occurs in the lower-cased GPU
  string, and 0 otherwise; several matching entries still add 2 once.
\<close>

theorem gpu_affinity_points:
  assumes "gpu hw = Some gs" and "gs \<noteq> []" and "recommended_for m = Some rf" and "rf \<noteq> []"
  shows "scoreModelForHardware m (Some hw) - scoreModelForHardware m (Some (hw\<lparr>gpu := None\<rparr>))
       = (if list_ex (\<lambda>s. includes_str (toLowerCase gs) (fieldOne (toLowerCase s))) rf
          then 2 else 0)"
  using assms
  by (simp add: score_factors archPoints_def ramPoints_def coresPoints_def gpuPoints_def
      gpuMatch_def)

theorem gpu_affinity_points_witness:
  "gpu pcHw = Some ''NVIDIA GeForce GTX 1080'' \<and>
   recommended_for (exB\<lparr>recommended_for := Some [''GTX 1080 8GB'', ''Radeon 1080'']\<rparr>)
     = Some [''GTX 1080 8GB'', ''Radeon 1080''] \<and>
   scoreModelForHardware (exB\<lparr>recommended_for := Some [''GTX 1080 8GB'', ''Radeon 1080'']\<rparr>) (Some pcHw) = 4 \<and>
   scoreModelForHardware (exB\<lparr>recommended_for := Some [''GTX 1080 8GB'', ''Radeon 1080'']\<rparr>)
     (Some (pcHw\<lparr>gpu := None\<rparr>)) = 2"
proof -
  let ?m = "exB\<lparr>recommended_for := Some [''GTX 1080 8GB'', ''Radeon 1080'']\<rparr>"
  have g: "gpu pcHw = Some ''NVIDIA GeForce GTX 1080''" by (simp add: pcHw_def)
  have r: "recommended_for ?m = Some [''GTX 1080 8GB'', ''Radeon 1080'']" by simp
  have s: "scoreModelForHardware ?m (Some pcHw) = 4" by code_simp
  have e: "list_ex (\<lambda>s. includes_str (toLowerCase ''NVIDIA GeForce GTX 1080'') (fieldOne (toLowerCase s)))
      [''GTX 1080 8GB'', ''Radeon 1080'']"
    by code_simp
  from gpu_affinity_points [OF g _ r] s e g r show ?thesis by simp
qed

text \<open>
  Where the source and the specification's wording part. The entry "RTX  3060" with two
  spaces has an empty field at index 1, which every GPU string contains, so the source
  adds 2 although the second token "3060" does not occur in the GPU string. And on a GPU
  string that is present but empty the source adds nothing, although the empty second
  token of the one-word entry "M1" occurs in it.
\<close>

theorem gpu_affinity_counterexample:
  "gpu pcHw = Some ''NVIDIA GeForce GTX 1080'' \<and>
   \<not> spec_gpuMatch ''NVIDIA GeForce GTX 1080'' [''RTX  3060''] \<and>
   scoreModelForHardware (exB\<lparr>recommended_for := Some [''RTX  3060'']\<rparr>) (Some pcHw)
     - scoreModelForHardware (exB\<lparr>recommended_for := Some [''RTX  3060'']\<rparr>) (Some (pcHw\<lparr>gpu := None\<rparr>)) = 2 \<and>
   spec_gpuMatch [] [''M1''] \<and>
   scoreModelForHardware (exA\<lparr>recommended_for := Some [''M1'']\<rparr>) (Some (pcHw\<lparr>gpu := Some []\<rparr>))
     - scoreModelForHardware (exA\<lparr>recommended_for := Some [''M1'']\<rparr>) (Some (pcHw\<lparr>gpu := None\<rparr>)) = 0"
  by code_simp

end
